theory Spec2Isabelle
  imports Main "HOL-Library.Word" "HOL-Library.AList"
begin

unbundle bit_operations_syntax

section \<open>IPC message buffer (Fiasco.OC): capability selectors to send\<close>

text \<open>
  \<^verbatim>\<open>size_t\<close> and \<^verbatim>\<open>addr_t\<close> are unsigned machine words; addition wraps and
  comparison is unsigned.
\<close>

type_synonym size_t = "64 word"
type_synonym addr_t = "64 word"

text \<open>\<^verbatim>\<open>enum { MAX_CAP_ARGS_LOG2 = 2, MAX_CAP_ARGS = 1 << MAX_CAP_ARGS_LOG2 }\<close>\<close>

definition MAX_CAP_ARGS_LOG2 :: nat where
  "MAX_CAP_ARGS_LOG2 = 2"

definition MAX_CAP_ARGS :: nat where
  "MAX_CAP_ARGS = push_bit MAX_CAP_ARGS_LOG2 1"

text \<open>
  The fields of \<^verbatim>\<open>Msgbuf_base\<close>. The array \<^verbatim>\<open>addr_t _snd_cap_sel[MAX_CAP_ARGS]\<close>
  is a list; a write past its end is a fault of the model, not a silent update.
\<close>

record msgbuf_base =
  m_capacity :: size_t
  m_data_size :: size_t
  m_snd_cap_sel_cnt :: size_t
  m_snd_cap_sel :: "addr_t list"
  m_rcv_cap_sel_cnt :: addr_t
  m_label :: "64 word"

datatype fault = Out_of_bounds

text \<open>\<^verbatim>\<open>void rcv_reset() { _rcv_cap_sel_cnt = 0; }\<close>\<close>

definition rcv_reset :: "msgbuf_base \<Rightarrow> msgbuf_base" where
  "rcv_reset m = m\<lparr>m_rcv_cap_sel_cnt := 0\<rparr>"

text \<open>\<^verbatim>\<open>void snd_reset() { _snd_cap_sel_cnt = 0; }\<close>\<close>

definition snd_reset :: "msgbuf_base \<Rightarrow> msgbuf_base" where
  "snd_reset m = m\<lparr>m_snd_cap_sel_cnt := 0\<rparr>"

text \<open>
  The constructor: the member initialisers (\<^verbatim>\<open>_data_size = 0\<close>, \<^verbatim>\<open>_label = 0\<close>, ...),
  then \<^verbatim>\<open>rcv_reset(); snd_reset();\<close>. The selector array is not initialised by the
  source: its \<^verbatim>\<open>MAX_CAP_ARGS\<close> cells hold whatever \<open>junk\<close> gives.
\<close>

definition Msgbuf_base :: "size_t \<Rightarrow> (nat \<Rightarrow> addr_t) \<Rightarrow> msgbuf_base" where
  "Msgbuf_base capacity junk =
     snd_reset (rcv_reset
       \<lparr>m_capacity = capacity, m_data_size = 0, m_snd_cap_sel_cnt = 0,
        m_snd_cap_sel = map junk [0..<MAX_CAP_ARGS], m_rcv_cap_sel_cnt = 0,
        m_label = 0\<rparr>)"

text \<open>
  \<^verbatim>\<open>
  bool snd_append_cap_sel(addr_t cap_sel)
  {
      if (_snd_cap_sel_cnt >= MAX_CAP_ARGS)
          return false;

      _snd_cap_sel[_snd_cap_sel_cnt++] = cap_sel;
      return true;
  }
  \<close>
  The result is the returned flag and the buffer after the call, or the fault of a
  write outside the array.
\<close>

definition snd_append_cap_sel :: "msgbuf_base \<Rightarrow> addr_t \<Rightarrow> fault + (bool \<times> msgbuf_base)" where
  "snd_append_cap_sel m cap_sel =
     (if of_nat MAX_CAP_ARGS \<le> m_snd_cap_sel_cnt m then Inr (False, m)
      else if unat (m_snd_cap_sel_cnt m) < length (m_snd_cap_sel m)
      then Inr (True, m\<lparr>m_snd_cap_sel := (m_snd_cap_sel m)[unat (m_snd_cap_sel_cnt m) := cap_sel],
                         m_snd_cap_sel_cnt := m_snd_cap_sel_cnt m + 1\<rparr>)
      else Inl Out_of_bounds)"

text \<open>\<^verbatim>\<open>size_t snd_cap_sel_cnt() const { return _snd_cap_sel_cnt; }\<close>\<close>

definition snd_cap_sel_cnt :: "msgbuf_base \<Rightarrow> size_t" where
  "snd_cap_sel_cnt m = m_snd_cap_sel_cnt m"

text \<open>
  \<^verbatim>\<open>addr_t snd_cap_sel(unsigned i) const {
      return i < _snd_cap_sel_cnt ? _snd_cap_sel[i] : 0; }\<close>
\<close>

definition snd_cap_sel :: "msgbuf_base \<Rightarrow> 32 word \<Rightarrow> addr_t" where
  "snd_cap_sel m i =
     (if ucast i < m_snd_cap_sel_cnt m then m_snd_cap_sel m ! unat i else 0)"

text \<open>A caller's sequence of calls on the send part of one buffer.\<close>

datatype snd_call = Snd_reset | Snd_append_cap_sel addr_t

fun snd_calls :: "snd_call list \<Rightarrow> msgbuf_base \<Rightarrow> fault + msgbuf_base" where
  "snd_calls [] m = Inr m"
| "snd_calls (Snd_reset # cs) m = snd_calls cs (snd_reset m)"
| "snd_calls (Snd_append_cap_sel c # cs) m =
     (case snd_append_cap_sel m c of
        Inl f \<Rightarrow> Inl f
      | Inr (_, m') \<Rightarrow> snd_calls cs m')"

text \<open>
  The bound the calls keep: at most \<^verbatim>\<open>MAX_CAP_ARGS\<close> selectors are counted, and the
  array has its declared size.
\<close>

definition snd_inv :: "msgbuf_base \<Rightarrow> bool" where
  "snd_inv m =
     (unat (m_snd_cap_sel_cnt m) \<le> MAX_CAP_ARGS \<and> length (m_snd_cap_sel m) = MAX_CAP_ARGS)"

section \<open>The network interface: data model\<close>

text \<open>
  Modelled from the spec: the classes the header includes (\<^verbatim>\<open>link.h\<close>, \<^verbatim>\<open>arp_waiter.h\<close>,
  \<^verbatim>\<open>dhcp_server.h\<close>, \<^verbatim>\<open>dhcp_client.h\<close>, the NIC session's packet descriptor) are
  not in the sources. Their data follows section 3 of the specification: addresses and ports as their numeric values, a packet descriptor as an
  opaque handle, a list of objects as a HOL list.
\<close>

type_synonym mac_address = nat
type_synonym ipv4_address = nat
type_synonym port = nat
type_synonym packet_descriptor = nat
type_synonym interface_id = nat
type_synonym link_id = nat

datatype l3_protocol = TCP | UDP | ICMP

text \<open>
  The exceptions \<^verbatim>\<open>Interface\<close> declares, and the packet-stream source's
  \<^verbatim>\<open>Packet_alloc_failed\<close>.
\<close>

datatype exception =
    Bad_send_dhcp_args
  | Bad_transport_protocol
  | Bad_network_protocol
  | Packet_postponed
  | Alloc_dhcp_msg_buffer_failed
  | Dhcp_msg_buffer_too_small
  | Drop_packet_inform string
  | Drop_packet_warn string
  | Packet_alloc_failed

text \<open>
  Modelled from the spec: \<^verbatim>\<open>arp_waiter.h\<close> is not in the sources. Section 3, ARP
  waiter: \<open>{waiting interface, target IP, postponed packet}\<close>.
\<close>

record arp_waiter =
  waiting_interface :: interface_id
  target_ip :: ipv4_address
  postponed_packet :: packet_descriptor

text \<open>
  Modelled from the spec: \<^verbatim>\<open>dhcp_server.h\<close> and \<^verbatim>\<open>dhcp_client.h\<close> are not in the
  sources. Section 3, DHCP allocation: \<open>{client MAC, offered/assigned IP, state, lease expiry, xid}\<close>; the
  client MAC is the key under which \<^verbatim>\<open>_dhcp_allocations\<close> holds it.
\<close>

datatype dhcp_allocation_state = OFFERED | BOUND

record dhcp_allocation =
  alloc_ip :: ipv4_address
  alloc_state :: dhcp_allocation_state
  lease_expiry :: nat
  alloc_xid :: nat

datatype dhcp_client_state =
  Client_INIT | Client_SELECT | Client_REQUEST | Client_BOUND | Client_RENEW | Client_REBIND

text \<open>
  What \<^verbatim>\<open>send\<close> does to the packet-stream source and to the log: the descriptors
  allocated, the buffers the writer was called on, the descriptors submitted, the
  descriptors whose allocation was released, and the warnings printed.
\<close>

record tx_state =
  tx_allocated :: "packet_descriptor list"
  tx_written :: "addr_t list"
  tx_submitted :: "packet_descriptor list"
  tx_released :: "packet_descriptor list"
  tx_log :: "string list"

text \<open>
  The members of \<^verbatim>\<open>class Net::Interface\<close> (the signal handlers, the timer, the
  allocator and the domain reference hold no data of the model), with the interface's
  two packet streams: the descriptors taken from the sink so far (numbered in the order
  they were taken), the acknowledgements given to the sink, and the source.
\<close>

record interface =
  router_mac :: mac_address
  mac :: mac_address
  own_arp_waiters :: "arp_waiter list"
  tcp_links :: "link_id list"
  udp_links :: "link_id list"
  dissolved_tcp_links :: "link_id list"
  dissolved_udp_links :: "link_id list"
  dhcp_allocations :: "(mac_address \<times> dhcp_allocation) list"
  released_dhcp_allocations :: "dhcp_allocation list"
  dhcp_client :: dhcp_client_state
  sink_taken :: nat
  sink_acked :: "packet_descriptor list"
  sent_frames :: "nat list list"
  source :: tx_state

section \<open>Sending a packet\<close>

text \<open>
  Modelled from the spec: the bodies of \<^verbatim>\<open>_send_alloc_pkt\<close> and
  \<^verbatim>\<open>_send_submit_pkt\<close> are not in the sources (the header only declares them).
  Section 4.1 and 6: the source offers \<open>alloc_packet(size) \<rightarrow> descriptor\<close>, which may
  fail with \<open>alloc_failed\<close>, and \<open>submit_packet(descriptor)\<close>. What the source answers to
  a call is the parameter \<open>alloc_packet\<close> or \<open>submit_packet\<close>; a step that throws leaves
  the state as it was.
\<close>

definition send_alloc_pkt ::
  "(nat \<Rightarrow> exception + (packet_descriptor \<times> addr_t)) \<Rightarrow> tx_state \<Rightarrow> nat
     \<Rightarrow> tx_state \<times> (exception + (packet_descriptor \<times> addr_t))" where
  "send_alloc_pkt alloc_packet s pkt_size =
     (case alloc_packet pkt_size of
        Inl e \<Rightarrow> (s, Inl e)
      | Inr (pkt, pkt_base) \<Rightarrow>
          (s\<lparr>tx_allocated := tx_allocated s @ [pkt]\<rparr>, Inr (pkt, pkt_base)))"

definition send_submit_pkt ::
  "(packet_descriptor \<Rightarrow> exception option) \<Rightarrow> tx_state \<Rightarrow> packet_descriptor
     \<Rightarrow> tx_state \<times> exception option" where
  "send_submit_pkt submit_packet s pkt =
     (case submit_packet pkt of
        Some e \<Rightarrow> (s, Some e)
      | None \<Rightarrow> (s\<lparr>tx_submitted := tx_submitted s @ [pkt]\<rparr>, None))"

text \<open>
  The \<^verbatim>\<open>try\<close> block of \<^verbatim>\<open>send\<close>:
  \<^verbatim>\<open>
  _send_alloc_pkt(pkt, pkt_base, pkt_size);
  write_to_pkt(pkt_base);
  _send_submit_pkt(pkt, pkt_base, pkt_size);
  \<close>
  The callback \<open>write_to_pkt\<close> returns normally (\<open>None\<close>) or throws. The result is the
  state the block leaves and the exception that leaves it, if one does.
\<close>

definition send_try ::
  "(nat \<Rightarrow> exception + (packet_descriptor \<times> addr_t)) \<Rightarrow> (packet_descriptor \<Rightarrow> exception option)
     \<Rightarrow> tx_state \<Rightarrow> nat \<Rightarrow> (addr_t \<Rightarrow> exception option) \<Rightarrow> tx_state \<times> exception option" where
  "send_try alloc_packet submit_packet s pkt_size write_to_pkt =
     (case send_alloc_pkt alloc_packet s pkt_size of
        (s1, Inl e) \<Rightarrow> (s1, Some e)
      | (s1, Inr (pkt, pkt_base)) \<Rightarrow>
          (let s2 = s1\<lparr>tx_written := tx_written s1 @ [pkt_base]\<rparr> in
           case write_to_pkt pkt_base of
             Some e \<Rightarrow> (s2, Some e)
           | None \<Rightarrow> send_submit_pkt submit_packet s2 pkt))"

text \<open>
  \<^verbatim>\<open>
  template <typename FUNC>
  void send(Genode::size_t pkt_size, FUNC && write_to_pkt)
  {
      try { ... }
      catch (Packet_stream_source::Packet_alloc_failed) {
          Genode::warning("failed to allocate packet");
      }
  }
  \<close>
  The handler catches \<^verbatim>\<open>Packet_alloc_failed\<close> whichever step threw it; any other
  exception leaves \<^verbatim>\<open>send\<close>.
\<close>

definition send ::
  "(nat \<Rightarrow> exception + (packet_descriptor \<times> addr_t)) \<Rightarrow> (packet_descriptor \<Rightarrow> exception option)
     \<Rightarrow> tx_state \<Rightarrow> nat \<Rightarrow> (addr_t \<Rightarrow> exception option) \<Rightarrow> tx_state \<times> exception option" where
  "send alloc_packet submit_packet s pkt_size write_to_pkt =
     (case send_try alloc_packet submit_packet s pkt_size write_to_pkt of
        (s', None) \<Rightarrow> (s', None)
      | (s', Some e) \<Rightarrow>
          (if e = Packet_alloc_failed
           then (s'\<lparr>tx_log := tx_log s' @ [''failed to allocate packet'']\<rparr>, None)
           else (s', Some e)))"

text \<open>
  Every packet allocated from the source is submitted or has its allocation released.
\<close>

definition tx_settled :: "tx_state \<Rightarrow> bool" where
  "tx_settled s =
     list_all (\<lambda>p. p \<in> set (tx_submitted s) \<or> p \<in> set (tx_released s)) (tx_allocated s)"

section \<open>Packet-stream signal handlers\<close>

text \<open>\<^verbatim>\<open>void _ack_avail() { }\<close> and \<^verbatim>\<open>void _packet_avail() { }\<close>\<close>

definition ack_avail :: "interface \<Rightarrow> interface" where
  "ack_avail i = i"

definition packet_avail :: "interface \<Rightarrow> interface" where
  "packet_avail i = i"

section \<open>IPv4 forwarder: dispatch of a received packet\<close>

text \<open>
  Modelled from the spec: the packet classes are not in the sources. What the forwarder
  reads of a received IPv4 packet (section 4.4): the transport protocol, the
  addresses, the ports, and the transport payload.
\<close>

record packet =
  p_prot :: l3_protocol
  p_src_ip :: ipv4_address
  p_src_port :: port
  p_dst_ip :: ipv4_address
  p_dst_port :: port
  p_payload :: "nat list"

text \<open>
  Modelled from the spec: the rule classes are not in the sources. Section 4.4, the
  target of a transport rule: \<open>remote domain + remote IP + remote port\<close>. An IP rule
  gives the remote domain.
\<close>

type_synonym domain_id = nat

record transport_target =
  remote_domain :: domain_id
  remote_ip :: ipv4_address
  remote_port :: port

text \<open>
  Modelled from the spec: the class \<^verbatim>\<open>Domain\<close> is not in the sources. What
  \<^verbatim>\<open>_handle_ip\<close> consults of the domain (sections 4.4 and 6): the own IPs of the interfaces in the
  domain, the domain's broadcast address, and the rule lookups
  \<open>transport_rules(proto).match(port) \<rightarrow> rule?\<close> and
  \<open>ip_rules.longest_prefix_match(addr) \<rightarrow> rule?\<close>, which the specification takes as
  given.
\<close>

record domain =
  own_ips :: "ipv4_address list"
  broadcast_ip :: ipv4_address
  transport_rules :: "l3_protocol \<Rightarrow> port \<Rightarrow> transport_target option"
  ip_rules :: "ipv4_address \<Rightarrow> domain_id option"

datatype ip_action =
    Delegate_dhcp
  | Forward_transport transport_target
  | Forward_ip domain_id
  | Domain_broadcast
  | Drop

text \<open>
  Modelled from the spec: section 4.4, "the transport is UDP ports 67\<leftrightarrow>68": UDP between
  the DHCP ports 67 and 68, in either direction.
\<close>

definition dhcp_ports :: "packet \<Rightarrow> bool" where
  "dhcp_ports p =
     (p_prot p = UDP \<and>
      (p_src_port p = 68 \<and> p_dst_port p = 67 \<or> p_src_port p = 67 \<and> p_dst_port p = 68))"

text \<open>
  Modelled from the spec: the body of \<^verbatim>\<open>_handle_ip\<close> is not in the sources (the
  header only declares it). Section 4.4, steps 1 to 5: DHCP for an own IP of the domain;
  otherwise the transport rule for (protocol, destination port); otherwise the IP rule
  for the destination; otherwise the domain broadcast when the destination is the
  domain's broadcast address; otherwise drop. How a matched rule forwards (the reuse or
  the creation of a link, same section) is modelled apart, with the links.
\<close>

definition handle_ip :: "domain \<Rightarrow> packet \<Rightarrow> ip_action" where
  "handle_ip d p =
     (if p_dst_ip p \<in> set (own_ips d) \<and> dhcp_ports p then Delegate_dhcp
      else case transport_rules d (p_prot p) (p_dst_port p) of
        Some target \<Rightarrow> Forward_transport target
      | None \<Rightarrow>
          (case ip_rules d (p_dst_ip p) of
             Some remote \<Rightarrow> Forward_ip remote
           | None \<Rightarrow> if p_dst_ip p = broadcast_ip d then Domain_broadcast else Drop))"

section \<open>DHCP server: a new allocation for a DHCPDISCOVER\<close>

text \<open>
  Modelled from the spec: \<^verbatim>\<open>dhcp_server.h\<close> is not in the sources. Section 4.7, the
  server's configuration: \<open>{IP range [low..high], lease seconds, DNS, gateway}\<close>; the
  reply carries the message type, the client, the IP and the xid.
\<close>

record dhcp_server =
  ip_first :: ipv4_address
  ip_last :: ipv4_address
  ip_lease_time :: nat
  dns_server :: ipv4_address
  gateway :: ipv4_address

datatype dhcp_message_type =
  DHCPDISCOVER | DHCPOFFER | DHCPREQUEST | DHCPACK | DHCPNAK | DHCPRELEASE

record dhcp_reply =
  reply_type :: dhcp_message_type
  reply_client_mac :: mac_address
  reply_client_ip :: ipv4_address
  reply_xid :: nat

text \<open>
  Modelled from the spec: section 4.7, an IP is "present in \<open>dhcp_allocations\<close>" when
  an allocation holds it.
\<close>

definition ip_allocated :: "(mac_address \<times> dhcp_allocation) list \<Rightarrow> ipv4_address \<Rightarrow> bool" where
  "ip_allocated allocs ip = list_ex (\<lambda>ma. alloc_ip (snd ma) = ip) allocs"

text \<open>
  Modelled from the spec: section 4.7, the scan of \<open>[low..high]\<close>, in order, for the
  first IP that is not allocated.
\<close>

definition first_free_ip ::
  "dhcp_server \<Rightarrow> (mac_address \<times> dhcp_allocation) list \<Rightarrow> ipv4_address option" where
  "first_free_ip srv allocs =
     find (\<lambda>ip. \<not> ip_allocated allocs ip) [ip_first srv..<Suc (ip_last srv)]"

text \<open>
  Modelled from the spec: the handling of a DHCPDISCOVER, \<^verbatim>\<open>_new_dhcp_allocation\<close>
  and its caller \<^verbatim>\<open>_handle_dhcp_request\<close>, is not in the sources (the header only
  declares them). Section 4.7: the IP is that of the client's allocation, when it has
  one (an allocation is \<open>OFFERED\<close> or \<open>BOUND\<close>), else the first free IP of the range;
  with no free IP the packet is dropped with \<open>Drop_packet_warn("dhcp pool full")\<close>, and
  neither an allocation nor a reply is made; otherwise the client's allocation becomes
  an \<open>OFFERED\<close> one for that IP that expires at \<open>now + offer-timeout\<close>, and the reply is
  a DHCPOFFER.
\<close>

definition new_dhcp_allocation ::
  "dhcp_server \<Rightarrow> nat \<Rightarrow> nat \<Rightarrow> (mac_address \<times> dhcp_allocation) list \<Rightarrow> mac_address \<Rightarrow> nat
     \<Rightarrow> exception + ((mac_address \<times> dhcp_allocation) list \<times> dhcp_reply)" where
  "new_dhcp_allocation srv now offer_timeout allocs client_mac xid =
     (case (case map_of allocs client_mac of
              Some a \<Rightarrow> Some (alloc_ip a)
            | None \<Rightarrow> first_free_ip srv allocs) of
        None \<Rightarrow> Inl (Drop_packet_warn ''dhcp pool full'')
      | Some ip \<Rightarrow>
          Inr (AList.update client_mac
                 \<lparr>alloc_ip = ip, alloc_state = OFFERED, lease_expiry = now + offer_timeout,
                  alloc_xid = xid\<rparr> allocs,
               \<lparr>reply_type = DHCPOFFER, reply_client_mac = client_mac, reply_client_ip = ip,
                reply_xid = xid\<rparr>))"

text \<open>A domain with one own IP, a transport rule for the ports 67 and 80, and IP rules.\<close>

definition example_domain :: domain where
  "example_domain =
     \<lparr>own_ips = [11], broadcast_ip = 255,
      transport_rules = (\<lambda>prot dst_port. if dst_port = 67 \<or> dst_port = 80
         then Some \<lparr>remote_domain = 1, remote_ip = 999, remote_port = 8080\<rparr> else None),
      ip_rules = (\<lambda>ip. if ip = 11 \<or> ip = 88 then Some 2 else None)\<rparr>"

text \<open>
  A pool of two addresses (the specification's boundary scenario 4), and the
  allocations after one and after two clients.
\<close>

definition pool :: dhcp_server where
  "pool = \<lparr>ip_first = 100, ip_last = 101, ip_lease_time = 3600, dns_server = 1, gateway = 1\<rparr>"

definition one_lease :: "(mac_address \<times> dhcp_allocation) list" where
  "one_lease = [(1, \<lparr>alloc_ip = 100, alloc_state = BOUND, lease_expiry = 3610, alloc_xid = 77\<rparr>)]"

definition two_leases :: "(mac_address \<times> dhcp_allocation) list" where
  "two_leases = one_lease @ [(2, \<lparr>alloc_ip = 101, alloc_state = OFFERED, lease_expiry = 25, alloc_xid = 78\<rparr>)]"

section \<open>Links and the NAT rewrite\<close>

text \<open>
  Modelled from the spec: \<^verbatim>\<open>link.h\<close> is not in the sources. Glossary, side id: the
  5-tuple \<open>(proto, src ip, src port, dst ip, dst port)\<close> used to look up
  links; the protocol is kept in the link.
\<close>

record link_side_id =
  id_src_ip :: ipv4_address
  id_src_port :: port
  id_dst_ip :: ipv4_address
  id_dst_port :: port

text \<open>
  Modelled from the spec: section 3, a side of a link: its interface and its id. (The MAC addresses a side carries are a
  matter of \<^verbatim>\<open>_adapt_eth\<close>, not of the NAT rewrite.)
\<close>

record link_side =
  side_interface :: interface_id
  side_id :: link_side_id

text \<open>
  Modelled from the spec: section 3, a link: the transport protocol, the client and the
  server side, the state.
\<close>

datatype link_state = OPEN | CLOSING | CLOSED

record link =
  link_prot :: l3_protocol
  client :: link_side
  server :: link_side
  link_state :: link_state



























section \<open>Receiving: every packet taken from the sink is acknowledged\<close>

text \<open>
  Modelled from the spec: the body of the constructor
  \<^verbatim>\<open>Interface(ep, timer, router_mac, alloc, mac, domain)\<close> is not in the sources.
  Section 3, an interface is created when the NIC session opens: the two MAC
  addresses are set, every collection is empty, nothing has been taken from the sink.
\<close>

definition Interface :: "mac_address \<Rightarrow> mac_address \<Rightarrow> interface" where
  "Interface router_mac_arg mac_arg =
     \<lparr>router_mac = router_mac_arg, mac = mac_arg, own_arp_waiters = [],
      tcp_links = [], udp_links = [], dissolved_tcp_links = [], dissolved_udp_links = [],
      dhcp_allocations = [], released_dhcp_allocations = [], dhcp_client = Client_INIT,
      sink_taken = 0, sink_acked = [], sent_frames = [],
      source = \<lparr>tx_allocated = [], tx_written = [], tx_submitted = [], tx_released = [],
                tx_log = []\<rparr>\<rparr>"

text \<open>
  Modelled from the spec: section 9, the outcome of handling a frame
  (\<^verbatim>\<open>_handle_eth\<close>, not in the sources): the frame was
  handled, it was dropped with \<^verbatim>\<open>Drop_packet_inform\<close> or \<^verbatim>\<open>Drop_packet_warn\<close>, or it
  was postponed (\<^verbatim>\<open>Packet_postponed\<close>) until the given IP is resolved.
\<close>

datatype outcome = Accept | DropInform string | DropWarn string | Postpone ipv4_address

text \<open>
  Modelled from the spec: the body of \<^verbatim>\<open>_ack_packet\<close> is not in the sources. Section
  6, \<open>acknowledge(descriptor)\<close>: one acknowledgement to the sink.
\<close>

definition ack_packet :: "packet_descriptor \<Rightarrow> interface \<Rightarrow> interface" where
  "ack_packet pkt i = i\<lparr>sink_acked := sink_acked i @ [pkt]\<rparr>"

text \<open>
  Modelled from the spec: the bodies of \<^verbatim>\<open>_ready_to_submit\<close>, \<^verbatim>\<open>_handle_eth\<close>,
  \<^verbatim>\<open>_continue_handle_eth\<close>, \<^verbatim>\<open>cancel_arp_waiting\<close> and of the destructor are not
  in the sources. Section 4.1: "On \<open>ready_to_submit\<close>, consume each available
  descriptor: parse, then ack. If parsing throws a postponed outcome, the packet is not
  acked now; it is held inside an ARP waiter and acked when resumed or timed out."
  One descriptor is taken from the sink; on the postponed outcome an ARP waiter holds
  it, on every other outcome it is acknowledged.
\<close>

definition take_packet :: "interface_id \<Rightarrow> outcome \<Rightarrow> interface \<Rightarrow> interface" where
  "take_packet self out i =
     (let pkt = sink_taken i; i1 = i\<lparr>sink_taken := Suc pkt\<rparr> in
      case out of
        Postpone ip \<Rightarrow>
          i1\<lparr>own_arp_waiters := own_arp_waiters i1 @
               [\<lparr>waiting_interface = self, target_ip = ip, postponed_packet = pkt\<rparr>]\<rparr>
      | _ \<Rightarrow> ack_packet pkt i1)"

text \<open>
  Modelled from the spec: section 4.1, the handler of \<open>ready_to_submit\<close> drains the
  available packets; each has its outcome.
\<close>

fun ready_to_submit :: "interface_id \<Rightarrow> outcome list \<Rightarrow> interface \<Rightarrow> interface" where
  "ready_to_submit self [] i = i"
| "ready_to_submit self (out # outs) i = ready_to_submit self outs (take_packet self out i)"

text \<open>
  Modelled from the spec: the waiters a condition selects are destroyed and their
  packets acknowledged. Sections 3 and 4.3: a waiter is destroyed when the ARP reply
  arrives (the packet is resumed: re-injected into the forwarder, then acknowledged),
  when its timeout elapses (the packet is dropped and acknowledged), or when the
  interface is destroyed (all waiters of the interface are cancelled, their packets
  dropped and acknowledged). What the re-injected packet does in the forwarder is not
  part of the model.
\<close>

definition release_waiters :: "(arp_waiter \<Rightarrow> bool) \<Rightarrow> interface \<Rightarrow> interface" where
  "release_waiters P i =
     i\<lparr>own_arp_waiters := filter (\<lambda>w. \<not> P w) (own_arp_waiters i),
       sink_acked := sink_acked i @ map postponed_packet (filter P (own_arp_waiters i))\<rparr>"

text \<open>
  Modelled from the spec: the ARP reply for an IP resumes all waiters for that IP; the
  timeout of the wait for a packet drops it; the destruction of the interface cancels
  all its waiters.
\<close>

definition resume_arp_waiters :: "ipv4_address \<Rightarrow> interface \<Rightarrow> interface" where
  "resume_arp_waiters ip i = release_waiters (\<lambda>w. target_ip w = ip) i"

definition arp_wait_timeout :: "packet_descriptor \<Rightarrow> interface \<Rightarrow> interface" where
  "arp_wait_timeout pkt i = release_waiters (\<lambda>w. postponed_packet w = pkt) i"

definition destroy_arp_waiters :: "interface \<Rightarrow> interface" where
  "destroy_arp_waiters i = release_waiters (\<lambda>w. True) i"

text \<open>The signals that reach one interface between its construction and its destruction.\<close>

datatype rx_event =
    Ready_to_submit "outcome list"
  | Arp_resolved ipv4_address
  | Arp_wait_timeout packet_descriptor

fun rx_step :: "interface_id \<Rightarrow> rx_event \<Rightarrow> interface \<Rightarrow> interface" where
  "rx_step self (Ready_to_submit outs) i = ready_to_submit self outs i"
| "rx_step self (Arp_resolved ip) i = resume_arp_waiters ip i"
| "rx_step self (Arp_wait_timeout pkt) i = arp_wait_timeout pkt i"

fun rx_run :: "interface_id \<Rightarrow> rx_event list \<Rightarrow> interface \<Rightarrow> interface" where
  "rx_run self [] i = i"
| "rx_run self (e # es) i = rx_run self es (rx_step self e i)"

text \<open>The packets held in ARP waiters, and the number of acknowledgements of a packet.\<close>

definition postponed :: "interface \<Rightarrow> packet_descriptor list" where
  "postponed i = map postponed_packet (own_arp_waiters i)"

definition acks :: "interface \<Rightarrow> packet_descriptor \<Rightarrow> nat" where
  "acks i pkt = count_list (sink_acked i) pkt"

text \<open>
  The invariant of the receive path: no packet is held by two waiters, a held packet
  was taken, and a packet has one acknowledgement when it was taken and is not held,
  and none otherwise.
\<close>

definition rx_inv :: "interface \<Rightarrow> bool" where
  "rx_inv i =
     (distinct (postponed i)
      \<and> (\<forall>p \<in> set (postponed i). p < sink_taken i)
      \<and> (\<forall>p. acks i p = (if p < sink_taken i \<and> p \<notin> set (postponed i) then 1 else 0)))"

text \<open>Three packets arrive; the second is postponed until IP 99 is resolved.\<close>

definition rx_example :: interface where
  "rx_example =
     rx_run 7 [Ready_to_submit [Accept, Postpone 99, DropWarn ''bad checksum'']] (Interface 1 2)"

section \<open>The link lists of the interfaces\<close>

text \<open>
  The interfaces and the links they share. A link list of an interface holds handles of
  links; the link behind a handle is in \<open>link_arena\<close> until it is deleted.
\<close>

record router =
  interfaces :: "interface_id \<Rightarrow> interface"
  link_arena :: "link_id \<Rightarrow> link option"
  next_link :: link_id

text \<open>
  Modelled from the spec: the bodies of the accessors \<^verbatim>\<open>links(protocol)\<close> and
  \<^verbatim>\<open>dissolved_links(protocol)\<close> are not in the sources. The interface has the lists
  \<^verbatim>\<open>_tcp_links\<close>, \<^verbatim>\<open>_udp_links\<close>, \<^verbatim>\<open>_dissolved_tcp_links\<close> and
  \<^verbatim>\<open>_dissolved_udp_links\<close>; a link is of protocol TCP or UDP (section 3), and any
  other protocol is the fatal \<^verbatim>\<open>Bad_transport_protocol\<close>.
\<close>

definition links :: "interface \<Rightarrow> l3_protocol \<Rightarrow> exception + link_id list" where
  "links i protocol =
     (case protocol of
        TCP \<Rightarrow> Inr (tcp_links i)
      | UDP \<Rightarrow> Inr (udp_links i)
      | ICMP \<Rightarrow> Inl Bad_transport_protocol)"

definition dissolved_links :: "interface \<Rightarrow> l3_protocol \<Rightarrow> exception + link_id list" where
  "dissolved_links i protocol =
     (case protocol of
        TCP \<Rightarrow> Inr (dissolved_tcp_links i)
      | UDP \<Rightarrow> Inr (dissolved_udp_links i)
      | ICMP \<Rightarrow> Inl Bad_transport_protocol)"

text \<open>
  Modelled from the spec: section 4.5, \<open>insert\<close>: the link enters the active list of its
  protocol.
\<close>

definition add_link :: "l3_protocol \<Rightarrow> link_id \<Rightarrow> interface \<Rightarrow> interface" where
  "add_link protocol lid i =
     (case protocol of
        TCP \<Rightarrow> i\<lparr>tcp_links := lid # tcp_links i\<rparr>
      | UDP \<Rightarrow> i\<lparr>udp_links := lid # udp_links i\<rparr>
      | ICMP \<Rightarrow> i)"

text \<open>
  Modelled from the spec: section 4.5, "Dissolution moves the link from \<open>*_links\<close> to \<open>dissolved_*_links\<close>."
  A link that is not in the active list (it is dissolved already) stays where it is.
\<close>

definition dissolve_on :: "l3_protocol \<Rightarrow> link_id \<Rightarrow> interface \<Rightarrow> interface" where
  "dissolve_on protocol lid i =
     (case protocol of
        TCP \<Rightarrow>
          if lid \<in> set (tcp_links i)
          then i\<lparr>tcp_links := removeAll lid (tcp_links i),
                 dissolved_tcp_links := lid # dissolved_tcp_links i\<rparr>
          else i
      | UDP \<Rightarrow>
          if lid \<in> set (udp_links i)
          then i\<lparr>udp_links := removeAll lid (udp_links i),
                 dissolved_udp_links := lid # dissolved_udp_links i\<rparr>
          else i
      | ICMP \<Rightarrow> i)"

text \<open>
  Modelled from the spec: section 4.5, the removal of a link from the dissolved list of
  its protocol, when the link is deleted.
\<close>

definition remove_dissolved :: "l3_protocol \<Rightarrow> link_id \<Rightarrow> interface \<Rightarrow> interface" where
  "remove_dissolved protocol lid i =
     (case protocol of
        TCP \<Rightarrow> i\<lparr>dissolved_tcp_links := removeAll lid (dissolved_tcp_links i)\<rparr>
      | UDP \<Rightarrow> i\<lparr>dissolved_udp_links := removeAll lid (dissolved_udp_links i)\<rparr>
      | ICMP \<Rightarrow> i)"

definition on_interface :: "interface_id \<Rightarrow> (interface \<Rightarrow> interface) \<Rightarrow> router \<Rightarrow> router" where
  "on_interface x f r = r\<lparr>interfaces := (interfaces r)(x := f (interfaces r x))\<rparr>"

text \<open>
  Modelled from the spec: the body of \<^verbatim>\<open>_new_link\<close> is not in the sources. Section
  4.4: "Construct both sides of the new Link ... Insert into both interfaces' link
  lists." The link gets a handle no link had before.
\<close>

definition new_link ::
  "l3_protocol \<Rightarrow> link_side \<Rightarrow> link_side \<Rightarrow> router \<Rightarrow> exception + router" where
  "new_link protocol client_side server_side r =
     (if protocol = ICMP then Inl Bad_transport_protocol
      else
        let lid = next_link r;
            r1 = on_interface (side_interface client_side) (add_link protocol lid) r;
            r2 = on_interface (side_interface server_side) (add_link protocol lid) r1
        in Inr (r2\<lparr>link_arena := (link_arena r2)
                       (lid \<mapsto> \<lparr>link_prot = protocol, client = client_side,
                                 server = server_side, link_state = OPEN\<rparr>),
                    next_link := Suc lid\<rparr>))"

text \<open>
  Modelled from the spec: the link's \<open>dissolve\<close> is in \<^verbatim>\<open>link.h\<close>, not in the sources.
  Section 3 and 4.5: a link is dissolved when TCP has seen FIN or RST on both sides, or
  when its idle timer fires; "both interfaces' lists are updated".
\<close>

definition dissolve :: "link_id \<Rightarrow> router \<Rightarrow> router" where
  "dissolve lid r =
     (case link_arena r lid of
        None \<Rightarrow> r
      | Some l \<Rightarrow>
          on_interface (side_interface (server l)) (dissolve_on (link_prot l) lid)
            (on_interface (side_interface (client l)) (dissolve_on (link_prot l) lid) r))"

text \<open>
  Modelled from the spec: section 3 and boundary scenario 3, the deletion of a dissolved
  link: it is removed from the dissolved lists of both interfaces and destroyed.
\<close>

definition destroy_link :: "link_id \<Rightarrow> router \<Rightarrow> router" where
  "destroy_link lid r =
     (case link_arena r lid of
        None \<Rightarrow> r
      | Some l \<Rightarrow>
          (on_interface (side_interface (server l)) (remove_dissolved (link_prot l) lid)
            (on_interface (side_interface (client l)) (remove_dissolved (link_prot l) lid) r))
          \<lparr>link_arena := (link_arena r)(lid := None)\<rparr>)"

text \<open>
  Modelled from the spec: the body of \<^verbatim>\<open>_ready_to_ack\<close> is not in the sources.
  Section 4.5: "actual deletion happens in the \<open>ready_to_ack\<close> drain": the handler
  deletes every link in the interface's dissolved lists.
\<close>

definition ready_to_ack :: "interface_id \<Rightarrow> router \<Rightarrow> router" where
  "ready_to_ack x r =
     fold destroy_link
       (dissolved_tcp_links (interfaces r x) @ dissolved_udp_links (interfaces r x)) r"

datatype link_op =
    New_link l3_protocol link_side link_side
  | Dissolve link_id
  | Ready_to_ack interface_id

text \<open>One operation; a \<^verbatim>\<open>_new_link\<close> that throws leaves the router as it was.\<close>

fun link_step :: "link_op \<Rightarrow> router \<Rightarrow> router" where
  "link_step (New_link protocol client_side server_side) r =
     (case new_link protocol client_side server_side r of
        Inl e \<Rightarrow> r
      | Inr r' \<Rightarrow> r')"
| "link_step (Dissolve lid) r = dissolve lid r"
| "link_step (Ready_to_ack x) r = ready_to_ack x r"

fun link_run :: "link_op list \<Rightarrow> router \<Rightarrow> router" where
  "link_run [] r = r"
| "link_run (op # ops) r = link_run ops (link_step op r)"

text \<open>The interfaces as constructed, and no link.\<close>

definition router_init :: "(interface_id \<Rightarrow> mac_address \<times> mac_address) \<Rightarrow> router" where
  "router_init macs =
     \<lparr>interfaces = (\<lambda>x. Interface (fst (macs x)) (snd (macs x))),
      link_arena = (\<lambda>lid. None), next_link = 0\<rparr>"

text \<open>
  The link is in exactly one of the two lists of the interface for the protocol: in the
  active list or in the dissolved list, not in both and not in neither.
\<close>

definition in_exactly_one :: "interface \<Rightarrow> l3_protocol \<Rightarrow> link_id \<Rightarrow> bool" where
  "in_exactly_one i protocol lid =
     (case (links i protocol, dissolved_links i protocol) of
        (Inr active, Inr dissolved) \<Rightarrow> (lid \<in> set active) \<noteq> (lid \<in> set dissolved)
      | _ \<Rightarrow> False)"

definition mentions :: "interface \<Rightarrow> link_id \<Rightarrow> bool" where
  "mentions i lid =
     (lid \<in> set (tcp_links i) \<or> lid \<in> set (udp_links i)
      \<or> lid \<in> set (dissolved_tcp_links i) \<or> lid \<in> set (dissolved_udp_links i))"

definition link_inv :: "router \<Rightarrow> bool" where
  "link_inv r =
     ((\<forall>lid l. link_arena r lid = Some l \<longrightarrow>
         lid < next_link r
         \<and> in_exactly_one (interfaces r (side_interface (client l))) (link_prot l) lid
         \<and> in_exactly_one (interfaces r (side_interface (server l))) (link_prot l) lid)
      \<and> (\<forall>x lid. mentions (interfaces r x) lid \<longrightarrow> lid < next_link r))"

definition no_drain :: "link_op list \<Rightarrow> bool" where
  "no_drain ops = list_all (\<lambda>op. case op of Ready_to_ack x \<Rightarrow> False | _ \<Rightarrow> True) ops"

text \<open>
  A TCP link between the interfaces 1 and 2 is made and dissolved, and a UDP link
  between the same interfaces is made.
\<close>

definition link_example :: router where
  "link_example =
     link_run
       [New_link TCP
          \<lparr>side_interface = 1,
           side_id = \<lparr>id_src_ip = 12, id_src_port = 5000, id_dst_ip = 88, id_dst_port = 80\<rparr>\<rparr>
          \<lparr>side_interface = 2,
           side_id = \<lparr>id_src_ip = 88, id_src_port = 80, id_dst_ip = 99, id_dst_port = 49152\<rparr>\<rparr>,
        Dissolve 0,
        New_link UDP
          \<lparr>side_interface = 1,
           side_id = \<lparr>id_src_ip = 12, id_src_port = 5001, id_dst_ip = 88, id_dst_port = 53\<rparr>\<rparr>
          \<lparr>side_interface = 2,
           side_id = \<lparr>id_src_ip = 88, id_src_port = 53, id_dst_ip = 99, id_dst_port = 49153\<rparr>\<rparr>]
       (router_init (\<lambda>x. (1, 2)))"

section \<open>Properties of the message buffer\<close>

lemma MAX_CAP_ARGS_eq: "MAX_CAP_ARGS = 4"
  by (simp add: MAX_CAP_ARGS_def MAX_CAP_ARGS_LOG2_def)

lemma MAX_CAP_ARGS_word: "(of_nat MAX_CAP_ARGS :: size_t) = 4"
  by (simp add: MAX_CAP_ARGS_eq)

lemma snd_append_cap_sel_room:
  assumes "unat (m_snd_cap_sel_cnt m) < MAX_CAP_ARGS" "length (m_snd_cap_sel m) = MAX_CAP_ARGS"
  shows "snd_append_cap_sel m c =
    Inr (True, m\<lparr>m_snd_cap_sel := (m_snd_cap_sel m)[unat (m_snd_cap_sel_cnt m) := c],
                  m_snd_cap_sel_cnt := m_snd_cap_sel_cnt m + 1\<rparr>)"
  using assms unfolding snd_append_cap_sel_def MAX_CAP_ARGS_word
  by (auto simp: MAX_CAP_ARGS_eq word_le_nat_alt)

lemma snd_append_cap_sel_full:
  assumes "MAX_CAP_ARGS \<le> unat (m_snd_cap_sel_cnt m)"
  shows "snd_append_cap_sel m c = Inr (False, m)"
  using assms unfolding snd_append_cap_sel_def MAX_CAP_ARGS_word
  by (auto simp: MAX_CAP_ARGS_eq word_le_nat_alt)

lemma unat_cnt_incr:
  assumes "unat (w :: size_t) < MAX_CAP_ARGS"
  shows "unat (w + 1) = unat w + 1"
  using assms by (simp add: unat_word_ariths MAX_CAP_ARGS_eq)

lemma snd_inv_init: "snd_inv (Msgbuf_base capacity junk)"
  by (simp add: snd_inv_def Msgbuf_base_def snd_reset_def rcv_reset_def)

lemma snd_inv_reset: "snd_inv m \<Longrightarrow> snd_inv (snd_reset m)"
  by (simp add: snd_inv_def snd_reset_def)

lemma snd_inv_append:
  assumes "snd_inv m"
  shows "\<exists>b m'. snd_append_cap_sel m c = Inr (b, m') \<and> snd_inv m'"
proof (cases "unat (m_snd_cap_sel_cnt m) < MAX_CAP_ARGS")
  case True
  with assms have "snd_inv (m\<lparr>m_snd_cap_sel := (m_snd_cap_sel m)[unat (m_snd_cap_sel_cnt m) := c],
                  m_snd_cap_sel_cnt := m_snd_cap_sel_cnt m + 1\<rparr>)"
    by (simp add: snd_inv_def unat_cnt_incr)
  with True assms show ?thesis
    by (auto simp: snd_append_cap_sel_room snd_inv_def)
next
  case False
  with assms show ?thesis
    by (auto simp: snd_append_cap_sel_full)
qed

lemma snd_calls_inv:
  "snd_inv m \<Longrightarrow> \<exists>m'. snd_calls cs m = Inr m' \<and> snd_inv m'"
proof (induction cs arbitrary: m)
  case Nil
  then show ?case by simp
next
  case (Cons c cs)
  show ?case
  proof (cases c)
    case Snd_reset
    with Cons show ?thesis by (simp add: snd_inv_reset)
  next
    case (Snd_append_cap_sel x)
    from snd_inv_append [OF Cons.prems, of x]
    obtain b m1 where a: "snd_append_cap_sel m x = Inr (b, m1)" and i: "snd_inv m1"
      by blast
    from Cons.IH [OF i] a Snd_append_cap_sel show ?thesis by simp
  qed
qed

text \<open>
  C10. From a freshly constructed buffer, after any sequence of \<^verbatim>\<open>snd_reset\<close> and
  \<^verbatim>\<open>snd_append_cap_sel\<close> calls no write has left the selector array, the selector
  count is at most \<^verbatim>\<open>MAX_CAP_ARGS\<close> = 4, and one more \<^verbatim>\<open>snd_append_cap_sel\<close>
  returns true, stores the selector at the (in-bounds) index given by the count and
  increments the count by one when fewer than 4 selectors are stored, and returns false
  leaving the buffer unchanged when 4 are stored.
\<close>

theorem snd_append_cap_sel_bounded:
  "\<exists>m. snd_calls cs (Msgbuf_base capacity junk) = Inr m
     \<and> unat (snd_cap_sel_cnt m) \<le> MAX_CAP_ARGS
     \<and> length (m_snd_cap_sel m) = MAX_CAP_ARGS
     \<and> (if unat (snd_cap_sel_cnt m) < MAX_CAP_ARGS
        then snd_append_cap_sel m c =
               Inr (True, m\<lparr>m_snd_cap_sel := (m_snd_cap_sel m)[unat (snd_cap_sel_cnt m) := c],
                             m_snd_cap_sel_cnt := snd_cap_sel_cnt m + 1\<rparr>)
           \<and> unat (snd_cap_sel_cnt m + 1) = unat (snd_cap_sel_cnt m) + 1
           \<and> unat (snd_cap_sel_cnt m) < length (m_snd_cap_sel m)
        else snd_append_cap_sel m c = Inr (False, m)
           \<and> unat (snd_cap_sel_cnt m) = MAX_CAP_ARGS)"
proof -
  from snd_calls_inv [OF snd_inv_init]
  obtain m where r: "snd_calls cs (Msgbuf_base capacity junk) = Inr m" and i: "snd_inv m"
    by blast
  from i have b: "unat (m_snd_cap_sel_cnt m) \<le> MAX_CAP_ARGS"
    and l: "length (m_snd_cap_sel m) = MAX_CAP_ARGS"
    by (simp_all add: snd_inv_def)
  show ?thesis
  proof (cases "unat (m_snd_cap_sel_cnt m) < MAX_CAP_ARGS")
    case True
    with r b l show ?thesis
      by (simp add: snd_cap_sel_cnt_def snd_append_cap_sel_room unat_cnt_incr)
  next
    case False
    with b have "unat (m_snd_cap_sel_cnt m) = MAX_CAP_ARGS" by simp
    with r l show ?thesis
      by (simp add: snd_cap_sel_cnt_def snd_append_cap_sel_full)
  qed
qed

text \<open>Five appends on a fresh buffer: the fifth is refused, four selectors are stored.\<close>

lemma snd_calls_five_appends: "snd_calls [Snd_append_cap_sel 10, Snd_append_cap_sel 11, Snd_append_cap_sel 12,
             Snd_append_cap_sel 13, Snd_append_cap_sel 14] (Msgbuf_base 64 (\<lambda>_. 0)) =
         Inr \<lparr>m_capacity = 64, m_data_size = 0, m_snd_cap_sel_cnt = 4,
              m_snd_cap_sel = [10, 11, 12, 13], m_rcv_cap_sel_cnt = 0, m_label = 0\<rparr>"
  by (simp add: Msgbuf_base_def snd_reset_def rcv_reset_def snd_append_cap_sel_def MAX_CAP_ARGS_eq upt_conv_Cons word_le_nat_alt)

section \<open>Properties of sending and of the ignored signals\<close>

lemma tx_settled_append_allocated_submitted:
  "tx_settled s \<Longrightarrow>
   tx_settled (s\<lparr>tx_allocated := tx_allocated s @ [p], tx_written := w,
                 tx_submitted := tx_submitted s @ [p]\<rparr>)"
  by (auto simp: tx_settled_def list_all_iff)

lemma tx_settled_log:
  "tx_settled (s\<lparr>tx_log := l\<rparr>) = tx_settled s"
  by (simp add: tx_settled_def)

text \<open>
  C5. When the allocation of the TX buffer fails with \<^verbatim>\<open>Packet_alloc_failed\<close>,
  \<^verbatim>\<open>send\<close> logs the warning and returns normally: nothing is allocated or submitted,
  the writer is not called (whatever the writer and the submit step would have done),
  and no exception leaves \<^verbatim>\<open>send\<close>.
\<close>

theorem send_alloc_failed:
  assumes "alloc_packet pkt_size = Inl Packet_alloc_failed"
  shows "send alloc_packet submit_packet s pkt_size write_to_pkt =
           (s\<lparr>tx_log := tx_log s @ [''failed to allocate packet'']\<rparr>, None)
       \<and> tx_allocated (fst (send alloc_packet submit_packet s pkt_size write_to_pkt)) = tx_allocated s
       \<and> tx_written (fst (send alloc_packet submit_packet s pkt_size write_to_pkt)) = tx_written s
       \<and> tx_submitted (fst (send alloc_packet submit_packet s pkt_size write_to_pkt)) = tx_submitted s"
  using assms by (simp add: send_def send_try_def send_alloc_pkt_def)

theorem send_alloc_failed_witness:
  "send (\<lambda>n. if n \<le> 1500 then Inr (3, 4096) else Inl Packet_alloc_failed) (\<lambda>_. None)
        \<lparr>tx_allocated = [1], tx_written = [64], tx_submitted = [1], tx_released = [], tx_log = []\<rparr>
        9000 (\<lambda>_. Some Dhcp_msg_buffer_too_small) =
     (\<lparr>tx_allocated = [1], tx_written = [64], tx_submitted = [1], tx_released = [],
       tx_log = [''failed to allocate packet'']\<rparr>, None)"
  using send_alloc_failed [of "\<lambda>n. if n \<le> 1500 then Inr (3, 4096) else Inl Packet_alloc_failed" 9000
      "\<lambda>_. None" "\<lparr>tx_allocated = [1], tx_written = [64], tx_submitted = [1], tx_released = [], tx_log = []\<rparr>"
      "\<lambda>_. Some Dhcp_msg_buffer_too_small"]
  by simp

text \<open>
  C4 as stated fails: \<^verbatim>\<open>send\<close> has no release step. When the writer throws (here
  \<^verbatim>\<open>Dhcp_msg_buffer_too_small\<close>, which the handler does not catch), the exception
  leaves \<^verbatim>\<open>send\<close> with packet 3 allocated, and neither submitted nor released.
\<close>

theorem send_writer_throws_counterexample:
  "tx_settled \<lparr>tx_allocated = [], tx_written = [], tx_submitted = [], tx_released = [], tx_log = []\<rparr>
   \<and> send (\<lambda>_. Inr (3, 4096)) (\<lambda>_. None)
        \<lparr>tx_allocated = [], tx_written = [], tx_submitted = [], tx_released = [], tx_log = []\<rparr>
        342 (\<lambda>_. Some Dhcp_msg_buffer_too_small) =
      (\<lparr>tx_allocated = [3], tx_written = [4096], tx_submitted = [], tx_released = [], tx_log = []\<rparr>,
       Some Dhcp_msg_buffer_too_small)
   \<and> \<not> tx_settled (fst (send (\<lambda>_. Inr (3, 4096)) (\<lambda>_. None)
        \<lparr>tx_allocated = [], tx_written = [], tx_submitted = [], tx_released = [], tx_log = []\<rparr>
        342 (\<lambda>_. Some Dhcp_msg_buffer_too_small)))"
  by (simp add: send_def send_try_def send_alloc_pkt_def tx_settled_def)

text \<open>
  C4, amended. In every execution of \<^verbatim>\<open>send\<close> in which neither the writer nor the
  submit step throws, every packet allocated from the source is submitted or released
  when \<^verbatim>\<open>send\<close> returns or propagates an exception (of the allocation step, which
  allocated nothing): the packet \<^verbatim>\<open>send\<close> allocated is submitted, and \<^verbatim>\<open>send\<close>
  releases nothing.
\<close>

theorem send_settles_without_throw:
  assumes "tx_settled s"
    and "\<forall>pkt pkt_base. alloc_packet pkt_size = Inr (pkt, pkt_base) \<longrightarrow>
           write_to_pkt pkt_base = None \<and> submit_packet pkt = None"
  shows "tx_settled (fst (send alloc_packet submit_packet s pkt_size write_to_pkt))
       \<and> tx_released (fst (send alloc_packet submit_packet s pkt_size write_to_pkt)) = tx_released s
       \<and> (\<forall>pkt pkt_base. alloc_packet pkt_size = Inr (pkt, pkt_base) \<longrightarrow>
            send alloc_packet submit_packet s pkt_size write_to_pkt =
              (s\<lparr>tx_allocated := tx_allocated s @ [pkt], tx_written := tx_written s @ [pkt_base],
                  tx_submitted := tx_submitted s @ [pkt]\<rparr>, None))"
proof (cases "alloc_packet pkt_size")
  case (Inl e)
  with assms(1) show ?thesis
    by (simp add: send_def send_try_def send_alloc_pkt_def tx_settled_log)
next
  case (Inr r)
  obtain pkt pkt_base where r: "r = (pkt, pkt_base)" by (cases r)
  with Inr assms(2) have w: "write_to_pkt pkt_base = None" and u: "submit_packet pkt = None"
    by simp_all
  have e: "send alloc_packet submit_packet s pkt_size write_to_pkt =
              (s\<lparr>tx_allocated := tx_allocated s @ [pkt], tx_written := tx_written s @ [pkt_base],
                  tx_submitted := tx_submitted s @ [pkt]\<rparr>, None)"
    using Inr r w u by (simp add: send_def send_try_def send_alloc_pkt_def send_submit_pkt_def)
  show ?thesis
    using Inr r assms(1) by (simp add: e tx_settled_append_allocated_submitted)
qed

theorem send_settles_without_throw_witness:
  "tx_settled (fst (send (\<lambda>_. Inr (3, 4096)) (\<lambda>_. None)
        \<lparr>tx_allocated = [1], tx_written = [64], tx_submitted = [1], tx_released = [], tx_log = []\<rparr>
        342 (\<lambda>_. None)))
   \<and> send (\<lambda>_. Inr (3, 4096)) (\<lambda>_. None)
        \<lparr>tx_allocated = [1], tx_written = [64], tx_submitted = [1], tx_released = [], tx_log = []\<rparr>
        342 (\<lambda>_. None) =
      (\<lparr>tx_allocated = [1, 3], tx_written = [64, 4096], tx_submitted = [1, 3], tx_released = [],
        tx_log = []\<rparr>, None)"
  using send_settles_without_throw
    [where s = "\<lparr>tx_allocated = [1], tx_written = [64], tx_submitted = [1], tx_released = [], tx_log = []\<rparr>"
       and alloc_packet = "\<lambda>_. Inr (3, 4096)" and pkt_size = 342
       and write_to_pkt = "\<lambda>_. None" and submit_packet = "\<lambda>_. None"]
  by (simp add: tx_settled_def)

text \<open>
  C9. The handlers of the \<^verbatim>\<open>ack_avail\<close> and \<^verbatim>\<open>packet_avail\<close> signals do nothing:
  the interface after the handler is the interface before it, in every member (links,
  dissolved links, ARP waiters, DHCP allocations, DHCP client state), in the frames
  emitted and the source, and in the acknowledgements given to the sink.
\<close>

theorem avail_signals_no_op:
  "ack_avail i = i \<and> packet_avail i = i
   \<and> own_arp_waiters (ack_avail i) = own_arp_waiters i
   \<and> tcp_links (ack_avail i) = tcp_links i \<and> udp_links (ack_avail i) = udp_links i
   \<and> dissolved_tcp_links (ack_avail i) = dissolved_tcp_links i
   \<and> dissolved_udp_links (ack_avail i) = dissolved_udp_links i
   \<and> dhcp_allocations (ack_avail i) = dhcp_allocations i
   \<and> released_dhcp_allocations (ack_avail i) = released_dhcp_allocations i
   \<and> dhcp_client (ack_avail i) = dhcp_client i
   \<and> sent_frames (ack_avail i) = sent_frames i \<and> source (ack_avail i) = source i
   \<and> sink_acked (ack_avail i) = sink_acked i
   \<and> own_arp_waiters (packet_avail i) = own_arp_waiters i
   \<and> tcp_links (packet_avail i) = tcp_links i \<and> udp_links (packet_avail i) = udp_links i
   \<and> dissolved_tcp_links (packet_avail i) = dissolved_tcp_links i
   \<and> dissolved_udp_links (packet_avail i) = dissolved_udp_links i
   \<and> dhcp_allocations (packet_avail i) = dhcp_allocations i
   \<and> released_dhcp_allocations (packet_avail i) = released_dhcp_allocations i
   \<and> dhcp_client (packet_avail i) = dhcp_client i
   \<and> sent_frames (packet_avail i) = sent_frames i \<and> source (packet_avail i) = source i
   \<and> sink_acked (packet_avail i) = sink_acked i"
  by (simp add: ack_avail_def packet_avail_def)

section \<open>Properties of the dispatch and of the DHCP server\<close>

text \<open>
  C6. The dispatch of a received IPv4 packet tries its steps in a fixed order: DHCP, when
  the destination is an own IP of the domain and the transport is UDP between the
  ports 67 and 68, whatever rules match; otherwise the transport rule for (protocol,
  destination port), whatever IP rule matches; otherwise the IP rule for the
  destination; otherwise the domain broadcast, when the destination is the domain's
  broadcast address; otherwise the packet is dropped.
\<close>

theorem handle_ip_order:
  "(p_dst_ip p \<in> set (own_ips d) \<and> dhcp_ports p \<longrightarrow> handle_ip d p = Delegate_dhcp)
   \<and> (\<not> (p_dst_ip p \<in> set (own_ips d) \<and> dhcp_ports p)
        \<and> transport_rules d (p_prot p) (p_dst_port p) = Some target \<longrightarrow>
      handle_ip d p = Forward_transport target)
   \<and> (\<not> (p_dst_ip p \<in> set (own_ips d) \<and> dhcp_ports p)
        \<and> transport_rules d (p_prot p) (p_dst_port p) = None
        \<and> ip_rules d (p_dst_ip p) = Some remote \<longrightarrow>
      handle_ip d p = Forward_ip remote)
   \<and> (\<not> (p_dst_ip p \<in> set (own_ips d) \<and> dhcp_ports p)
        \<and> transport_rules d (p_prot p) (p_dst_port p) = None
        \<and> ip_rules d (p_dst_ip p) = None
        \<and> p_dst_ip p = broadcast_ip d \<longrightarrow>
      handle_ip d p = Domain_broadcast)
   \<and> (\<not> (p_dst_ip p \<in> set (own_ips d) \<and> dhcp_ports p)
        \<and> transport_rules d (p_prot p) (p_dst_port p) = None
        \<and> ip_rules d (p_dst_ip p) = None
        \<and> p_dst_ip p \<noteq> broadcast_ip d \<longrightarrow>
      handle_ip d p = Drop)"
  by (simp add: handle_ip_def)

theorem handle_ip_order_witness:
  "handle_ip example_domain
     \<lparr>p_prot = UDP, p_src_ip = 0, p_src_port = 68, p_dst_ip = 11, p_dst_port = 67, p_payload = []\<rparr>
     = Delegate_dhcp
   \<and> handle_ip example_domain
     \<lparr>p_prot = TCP, p_src_ip = 12, p_src_port = 5000, p_dst_ip = 11, p_dst_port = 80, p_payload = []\<rparr>
     = Forward_transport \<lparr>remote_domain = 1, remote_ip = 999, remote_port = 8080\<rparr>
   \<and> handle_ip example_domain
     \<lparr>p_prot = TCP, p_src_ip = 12, p_src_port = 5000, p_dst_ip = 88, p_dst_port = 53, p_payload = []\<rparr>
     = Forward_ip 2
   \<and> handle_ip example_domain
     \<lparr>p_prot = UDP, p_src_ip = 12, p_src_port = 5000, p_dst_ip = 255, p_dst_port = 53, p_payload = []\<rparr>
     = Domain_broadcast
   \<and> handle_ip example_domain
     \<lparr>p_prot = UDP, p_src_ip = 12, p_src_port = 5000, p_dst_ip = 77, p_dst_port = 53, p_payload = []\<rparr>
     = Drop"
  using
    handle_ip_order [of "\<lparr>p_prot = UDP, p_src_ip = 0, p_src_port = 68, p_dst_ip = 11, p_dst_port = 67, p_payload = []\<rparr>"
      example_domain]
    handle_ip_order [of "\<lparr>p_prot = TCP, p_src_ip = 12, p_src_port = 5000, p_dst_ip = 11, p_dst_port = 80, p_payload = []\<rparr>"
      example_domain]
    handle_ip_order [of "\<lparr>p_prot = TCP, p_src_ip = 12, p_src_port = 5000, p_dst_ip = 88, p_dst_port = 53, p_payload = []\<rparr>"
      example_domain]
    handle_ip_order [of "\<lparr>p_prot = UDP, p_src_ip = 12, p_src_port = 5000, p_dst_ip = 255, p_dst_port = 53, p_payload = []\<rparr>"
      example_domain]
    handle_ip_order [of "\<lparr>p_prot = UDP, p_src_ip = 12, p_src_port = 5000, p_dst_ip = 77, p_dst_port = 53, p_payload = []\<rparr>"
      example_domain]
  by (simp add: example_domain_def dhcp_ports_def)

lemma find_upt_Some:
  "find P [a..<b] = Some x \<longleftrightarrow> a \<le> x \<and> x < b \<and> P x \<and> (\<forall>j. a \<le> j \<and> j < x \<longrightarrow> \<not> P j)"
  (is "?L \<longleftrightarrow> ?R")
proof
  assume ?L
  then obtain i where i: "i < b - a" and px: "P (a + i)" and x: "x = a + i"
    and before: "\<forall>j<i. \<not> P ([a..<b] ! j)"
    unfolding find_Some_iff by auto
  have "\<not> P j" if "a \<le> j" "j < x" for j
  proof -
    from that x have l: "j - a < i" by arith
    with before have "\<not> P ([a..<b] ! (j - a))" by blast
    moreover from that l i have "[a..<b] ! (j - a) = j" by simp
    ultimately show ?thesis by simp
  qed
  with i px x show ?R by auto
next
  assume r: ?R
  from r have 1: "x - a < length [a..<b]" by auto
  from r have 2: "[a..<b] ! (x - a) = x" by auto
  have 3: "\<forall>j < x - a. \<not> P ([a..<b] ! j)"
  proof (intro allI impI)
    fix j assume "j < x - a"
    with r have "[a..<b] ! j = a + j" "a \<le> a + j" "a + j < x" by auto
    with r show "\<not> P ([a..<b] ! j)" by simp
  qed
  from r have 4: "P ([a..<b] ! (x - a))" using 2 by simp
  from 1 2 [symmetric] 3 4 show ?L
    unfolding find_Some_iff by blast
qed

lemma first_free_ip_Some:
  "first_free_ip srv allocs = Some ip \<longleftrightarrow>
     ip_first srv \<le> ip \<and> ip \<le> ip_last srv \<and> \<not> ip_allocated allocs ip
     \<and> (\<forall>j. ip_first srv \<le> j \<and> j < ip \<longrightarrow> ip_allocated allocs j)"
  unfolding first_free_ip_def find_upt_Some by auto

lemma first_free_ip_None:
  "first_free_ip srv allocs = None \<longleftrightarrow>
     (\<forall>j. ip_first srv \<le> j \<and> j \<le> ip_last srv \<longrightarrow> ip_allocated allocs j)"
  unfolding first_free_ip_def find_None_iff by (auto simp del: upt_Suc)

lemma update_absent_key:
  "map_of al k = None \<Longrightarrow> AList.update k v al = al @ [(k, v)]"
  by (induction al) (auto split: if_splits)

text \<open>
  C7. For a DHCPDISCOVER from client MAC \<open>client_mac\<close>: when the client has an
  allocation, the DHCPOFFER offers that allocation's IP, which stays the client's; when
  it has none, the IP offered is the first of the range \<open>[low..high]\<close>, in order, that
  no allocation holds, a new \<open>OFFERED\<close> allocation for it is added, and the reply is a
  DHCPOFFER; when every IP of the range is allocated, the packet is dropped with
  \<open>Drop_packet_warn "dhcp pool full"\<close>, and there is neither an offer nor an allocation.
\<close>

theorem new_dhcp_allocation_discover:
  "(map_of allocs client_mac = Some a \<longrightarrow>
      (\<exists>allocs'. new_dhcp_allocation srv now offer_timeout allocs client_mac xid =
         Inr (allocs', \<lparr>reply_type = DHCPOFFER, reply_client_mac = client_mac,
                        reply_client_ip = alloc_ip a, reply_xid = xid\<rparr>)
         \<and> map_option alloc_ip (map_of allocs' client_mac) = Some (alloc_ip a)))
   \<and> (map_of allocs client_mac = None
        \<and> ip_first srv \<le> ip \<and> ip \<le> ip_last srv \<and> \<not> ip_allocated allocs ip
        \<and> (\<forall>j. ip_first srv \<le> j \<and> j < ip \<longrightarrow> ip_allocated allocs j) \<longrightarrow>
      new_dhcp_allocation srv now offer_timeout allocs client_mac xid =
        Inr (allocs @ [(client_mac, \<lparr>alloc_ip = ip, alloc_state = OFFERED,
                                     lease_expiry = now + offer_timeout, alloc_xid = xid\<rparr>)],
             \<lparr>reply_type = DHCPOFFER, reply_client_mac = client_mac,
              reply_client_ip = ip, reply_xid = xid\<rparr>))
   \<and> (map_of allocs client_mac = None
        \<and> (\<forall>j. ip_first srv \<le> j \<and> j \<le> ip_last srv \<longrightarrow> ip_allocated allocs j) \<longrightarrow>
      new_dhcp_allocation srv now offer_timeout allocs client_mac xid =
        Inl (Drop_packet_warn ''dhcp pool full''))"
proof (intro conjI impI)
  assume "map_of allocs client_mac = Some a"
  then show "\<exists>allocs'. new_dhcp_allocation srv now offer_timeout allocs client_mac xid =
         Inr (allocs', \<lparr>reply_type = DHCPOFFER, reply_client_mac = client_mac,
                        reply_client_ip = alloc_ip a, reply_xid = xid\<rparr>)
         \<and> map_option alloc_ip (map_of allocs' client_mac) = Some (alloc_ip a)"
    by (simp add: new_dhcp_allocation_def update_conv')
next
  assume f: "map_of allocs client_mac = None
        \<and> ip_first srv \<le> ip \<and> ip \<le> ip_last srv \<and> \<not> ip_allocated allocs ip
        \<and> (\<forall>j. ip_first srv \<le> j \<and> j < ip \<longrightarrow> ip_allocated allocs j)"
  then have "first_free_ip srv allocs = Some ip"
    unfolding first_free_ip_Some by blast
  with f show "new_dhcp_allocation srv now offer_timeout allocs client_mac xid =
        Inr (allocs @ [(client_mac, \<lparr>alloc_ip = ip, alloc_state = OFFERED,
                                     lease_expiry = now + offer_timeout, alloc_xid = xid\<rparr>)],
             \<lparr>reply_type = DHCPOFFER, reply_client_mac = client_mac,
              reply_client_ip = ip, reply_xid = xid\<rparr>)"
    by (simp add: new_dhcp_allocation_def update_absent_key)
next
  assume f: "map_of allocs client_mac = None
        \<and> (\<forall>j. ip_first srv \<le> j \<and> j \<le> ip_last srv \<longrightarrow> ip_allocated allocs j)"
  then have "first_free_ip srv allocs = None"
    unfolding first_free_ip_None by blast
  with f show "new_dhcp_allocation srv now offer_timeout allocs client_mac xid =
        Inl (Drop_packet_warn ''dhcp pool full'')"
    by (simp add: new_dhcp_allocation_def)
qed

theorem new_dhcp_allocation_discover_witness:
  "map_option snd (case new_dhcp_allocation pool 20 5 one_lease 1 79 of Inl e \<Rightarrow> None | Inr r \<Rightarrow> Some r) =
      Some \<lparr>reply_type = DHCPOFFER, reply_client_mac = 1, reply_client_ip = 100, reply_xid = 79\<rparr>
   \<and> new_dhcp_allocation pool 20 5 one_lease 2 78 =
      Inr (two_leases,
           \<lparr>reply_type = DHCPOFFER, reply_client_mac = 2, reply_client_ip = 101, reply_xid = 78\<rparr>)
   \<and> new_dhcp_allocation pool 30 5 two_leases 3 80 = Inl (Drop_packet_warn ''dhcp pool full'')"
proof -
  have a1: "ip_allocated one_lease j" if "100 \<le> j \<and> j < 101" for j
  proof -
    from that have "j = 100" by arith
    then show ?thesis by (simp add: ip_allocated_def one_lease_def)
  qed
  have a2: "ip_allocated two_leases j" if "100 \<le> j \<and> j \<le> 101" for j
  proof -
    from that have "j = 100 \<or> j = 101" by arith
    then show ?thesis by (auto simp: ip_allocated_def one_lease_def two_leases_def)
  qed
  have r1: "map_of one_lease 1 = Some \<lparr>alloc_ip = 100, alloc_state = BOUND, lease_expiry = 3610, alloc_xid = 77\<rparr>"
    by (simp add: one_lease_def)
  have r2: "map_of one_lease 2 = None \<and> ip_first pool \<le> 101 \<and> 101 \<le> ip_last pool
      \<and> \<not> ip_allocated one_lease 101
      \<and> (\<forall>j. ip_first pool \<le> j \<and> j < 101 \<longrightarrow> ip_allocated one_lease j)"
    using a1 by (simp add: one_lease_def pool_def ip_allocated_def)
  have r3: "map_of two_leases 3 = None
      \<and> (\<forall>j. ip_first pool \<le> j \<and> j \<le> ip_last pool \<longrightarrow> ip_allocated two_leases j)"
    using a2 by (simp add: one_lease_def two_leases_def pool_def)
  from new_dhcp_allocation_discover [where allocs = one_lease and client_mac = 1 and srv = pool
      and now = 20 and offer_timeout = 5 and xid = 79, THEN conjunct1, rule_format, OF r1]
  have c1: "map_option snd (case new_dhcp_allocation pool 20 5 one_lease 1 79 of Inl e \<Rightarrow> None | Inr r \<Rightarrow> Some r) =
      Some \<lparr>reply_type = DHCPOFFER, reply_client_mac = 1, reply_client_ip = 100, reply_xid = 79\<rparr>"
    by auto
  from new_dhcp_allocation_discover [where allocs = one_lease and client_mac = 2 and srv = pool
      and now = 20 and offer_timeout = 5 and xid = 78 and ip = 101,
      THEN conjunct2, THEN conjunct1, rule_format, OF r2]
  have c2: "new_dhcp_allocation pool 20 5 one_lease 2 78 =
      Inr (two_leases,
           \<lparr>reply_type = DHCPOFFER, reply_client_mac = 2, reply_client_ip = 101, reply_xid = 78\<rparr>)"
    by (simp add: two_leases_def)
  from new_dhcp_allocation_discover [where allocs = two_leases and client_mac = 3 and srv = pool
      and now = 30 and offer_timeout = 5 and xid = 80,
      THEN conjunct2, THEN conjunct2, rule_format, OF r3]
  have c3: "new_dhcp_allocation pool 30 5 two_leases 3 80 = Inl (Drop_packet_warn ''dhcp pool full'')" .
  from c1 c2 c3 show ?thesis by blast
qed

section \<open>Properties of the NAT rewrite\<close>





















section \<open>Properties of the receive path\<close>

lemma rx_inv_Interface: "rx_inv (Interface rm m)"
  by (simp add: rx_inv_def Interface_def postponed_def acks_def)

lemma rx_inv_take_packet:
  assumes "rx_inv i"
  shows "rx_inv (take_packet self out i)"
proof (cases out)
  case (Postpone ip)
  with assms show ?thesis
    by (auto simp: rx_inv_def take_packet_def Let_def postponed_def acks_def less_Suc_eq)
next
  case Accept
  with assms show ?thesis
    by (auto simp: rx_inv_def take_packet_def Let_def postponed_def acks_def ack_packet_def less_Suc_eq)
next
  case (DropInform x)
  with assms show ?thesis
    by (auto simp: rx_inv_def take_packet_def Let_def postponed_def acks_def ack_packet_def less_Suc_eq)
next
  case (DropWarn x)
  with assms show ?thesis
    by (auto simp: rx_inv_def take_packet_def Let_def postponed_def acks_def ack_packet_def less_Suc_eq)
qed

lemma rx_inv_ready_to_submit:
  "rx_inv i \<Longrightarrow> rx_inv (ready_to_submit self outs i)"
  by (induction outs arbitrary: i) (simp_all add: rx_inv_take_packet)

lemma count_list_distinct:
  "distinct xs \<Longrightarrow> count_list xs x = (if x \<in> set xs then 1 else 0)"
  by (induction xs) auto

lemma count_released:
  assumes "distinct (map f ws)"
  shows "count_list (map f (filter P ws)) p = (if \<exists>w \<in> set ws. P w \<and> f w = p then 1 else 0)"
proof -
  from assms have "distinct (map f (filter P ws))" by (rule distinct_map_filter)
  then have "count_list (map f (filter P ws)) p = (if p \<in> set (map f (filter P ws)) then 1 else 0)"
    by (rule count_list_distinct)
  then show ?thesis by auto
qed

lemma kept_waiter:
  assumes "distinct (map f ws)"
  shows "p \<in> set (map f (filter (\<lambda>w. \<not> P w) ws)) \<longleftrightarrow>
         p \<in> set (map f ws) \<and> \<not> (\<exists>w \<in> set ws. P w \<and> f w = p)"
  using assms by (auto simp: distinct_map inj_on_def)

lemma rx_inv_release_waiters:
  assumes "rx_inv i"
  shows "rx_inv (release_waiters P i)"
proof -
  from assms have d: "distinct (map postponed_packet (own_arp_waiters i))"
    by (simp add: rx_inv_def postponed_def)
  have 1: "distinct (postponed (release_waiters P i))"
    using d by (simp add: postponed_def release_waiters_def distinct_map_filter)
  have 2: "\<forall>p \<in> set (postponed (release_waiters P i)). p < sink_taken (release_waiters P i)"
    using assms by (auto simp: rx_inv_def postponed_def release_waiters_def)
  have 3: "acks (release_waiters P i) p =
      (if p < sink_taken (release_waiters P i) \<and> p \<notin> set (postponed (release_waiters P i))
       then 1 else 0)" for p
  proof -
    have a: "acks (release_waiters P i) p =
        acks i p + (if \<exists>w \<in> set (own_arp_waiters i). P w \<and> postponed_packet w = p then 1 else 0)"
      by (simp add: acks_def release_waiters_def count_released [OF d])
    have b: "p \<in> set (postponed (release_waiters P i)) \<longleftrightarrow>
        p \<in> set (postponed i) \<and> \<not> (\<exists>w \<in> set (own_arp_waiters i). P w \<and> postponed_packet w = p)"
      using kept_waiter [OF d, of p P] by (simp add: postponed_def release_waiters_def)
    have c: "acks i p = (if p < sink_taken i \<and> p \<notin> set (postponed i) then 1 else 0)"
      using assms by (simp add: rx_inv_def)
    have e: "(\<exists>w \<in> set (own_arp_waiters i). P w \<and> postponed_packet w = p) \<Longrightarrow>
        p \<in> set (postponed i) \<and> p < sink_taken i"
      using assms by (auto simp: rx_inv_def postponed_def)
    have t: "sink_taken (release_waiters P i) = sink_taken i"
      by (simp add: release_waiters_def)
    show ?thesis
      unfolding a b c t using e by auto
  qed
  from 1 2 3 show ?thesis unfolding rx_inv_def by blast
qed

lemma rx_inv_step: "rx_inv i \<Longrightarrow> rx_inv (rx_step self e i)"
  by (cases e)
    (simp_all add: rx_inv_ready_to_submit rx_inv_release_waiters resume_arp_waiters_def
      arp_wait_timeout_def)

lemma rx_inv_run: "rx_inv i \<Longrightarrow> rx_inv (rx_run self es i)"
  by (induction es arbitrary: i) (simp_all add: rx_inv_step)


lemma acks_release_waiters:
  assumes "rx_inv i" and "w \<in> set (own_arp_waiters i)" and "P w"
  shows "acks (release_waiters P i) (postponed_packet w) = 1"
proof -
  from assms(1) have d: "distinct (map postponed_packet (own_arp_waiters i))"
    by (simp add: rx_inv_def postponed_def)
  from assms(1,2) have t: "postponed_packet w < sink_taken i"
    by (auto simp: rx_inv_def postponed_def)
  from assms(2,3) have "postponed_packet w \<notin> set (postponed (release_waiters P i))"
    using kept_waiter [OF d, of "postponed_packet w" P]
    by (auto simp: postponed_def release_waiters_def)
  moreover have "sink_taken (release_waiters P i) = sink_taken i"
    by (simp add: release_waiters_def)
  moreover from rx_inv_release_waiters [OF assms(1), of P]
  have "acks (release_waiters P i) (postponed_packet w) =
      (if postponed_packet w < sink_taken (release_waiters P i)
          \<and> postponed_packet w \<notin> set (postponed (release_waiters P i)) then 1 else 0)"
    by (simp add: rx_inv_def)
  ultimately show ?thesis using t by simp
qed

text \<open>
  C1. After any sequence of signals since the interface was constructed: every packet
  taken from the sink has exactly one acknowledgement, unless an ARP waiter holds it,
  and then it has none; a packet that was not taken has none. A packet whose handling is
  postponed is not acknowledged at that moment and is held in an ARP waiter. A packet a
  waiter holds has exactly one acknowledgement after it is resumed, and after its ARP
  wait times out. After the destruction of the interface every packet taken has exactly
  one acknowledgement, and no waiter is left.
\<close>

theorem rx_packets_acked_once:
  "(\<forall>p. p < sink_taken (rx_run self evs (Interface rm m)) \<longrightarrow>
        acks (rx_run self evs (Interface rm m)) p =
          (if p \<in> set (postponed (rx_run self evs (Interface rm m))) then 0 else 1))
   \<and> (\<forall>p. sink_taken (rx_run self evs (Interface rm m)) \<le> p \<longrightarrow>
        acks (rx_run self evs (Interface rm m)) p = 0)
   \<and> sink_acked (take_packet self (Postpone ip) (rx_run self evs (Interface rm m))) =
        sink_acked (rx_run self evs (Interface rm m))
   \<and> own_arp_waiters (take_packet self (Postpone ip) (rx_run self evs (Interface rm m))) =
        own_arp_waiters (rx_run self evs (Interface rm m)) @
          [\<lparr>waiting_interface = self, target_ip = ip,
            postponed_packet = sink_taken (rx_run self evs (Interface rm m))\<rparr>]
   \<and> (\<forall>w \<in> set (own_arp_waiters (rx_run self evs (Interface rm m))).
        acks (rx_run self evs (Interface rm m)) (postponed_packet w) = 0
        \<and> acks (resume_arp_waiters (target_ip w) (rx_run self evs (Interface rm m)))
            (postponed_packet w) = 1
        \<and> acks (arp_wait_timeout (postponed_packet w) (rx_run self evs (Interface rm m)))
            (postponed_packet w) = 1)
   \<and> (\<forall>p. p < sink_taken (rx_run self evs (Interface rm m)) \<longrightarrow>
        acks (destroy_arp_waiters (rx_run self evs (Interface rm m))) p = 1)
   \<and> own_arp_waiters (destroy_arp_waiters (rx_run self evs (Interface rm m))) = []"
proof -
  define i where "i = rx_run self evs (Interface rm m)"
  have inv: "rx_inv i"
    unfolding i_def by (rule rx_inv_run [OF rx_inv_Interface])
  have 1: "\<forall>p. p < sink_taken i \<longrightarrow> acks i p = (if p \<in> set (postponed i) then 0 else 1)"
    using inv by (simp add: rx_inv_def)
  have 2: "\<forall>p. sink_taken i \<le> p \<longrightarrow> acks i p = 0"
    using inv by (simp add: rx_inv_def)
  have 3: "sink_acked (take_packet self (Postpone ip) i) = sink_acked i"
    by (simp add: take_packet_def Let_def)
  have 4: "own_arp_waiters (take_packet self (Postpone ip) i) =
      own_arp_waiters i @
        [\<lparr>waiting_interface = self, target_ip = ip, postponed_packet = sink_taken i\<rparr>]"
    by (simp add: take_packet_def Let_def)
  have 5: "\<forall>w \<in> set (own_arp_waiters i).
        acks i (postponed_packet w) = 0
        \<and> acks (resume_arp_waiters (target_ip w) i) (postponed_packet w) = 1
        \<and> acks (arp_wait_timeout (postponed_packet w) i) (postponed_packet w) = 1"
  proof
    fix w assume w: "w \<in> set (own_arp_waiters i)"
    then have "postponed_packet w \<in> set (postponed i)"
      by (simp add: postponed_def)
    with inv have a: "acks i (postponed_packet w) = 0"
      by (simp add: rx_inv_def)
    have b: "acks (resume_arp_waiters (target_ip w) i) (postponed_packet w) = 1"
      unfolding resume_arp_waiters_def by (rule acks_release_waiters [OF inv w]) simp
    have c: "acks (arp_wait_timeout (postponed_packet w) i) (postponed_packet w) = 1"
      unfolding arp_wait_timeout_def by (rule acks_release_waiters [OF inv w]) simp
    from a b c show "acks i (postponed_packet w) = 0
        \<and> acks (resume_arp_waiters (target_ip w) i) (postponed_packet w) = 1
        \<and> acks (arp_wait_timeout (postponed_packet w) i) (postponed_packet w) = 1"
      by blast
  qed
  have e: "own_arp_waiters (destroy_arp_waiters i) = []"
    by (simp add: destroy_arp_waiters_def release_waiters_def)
  have 6: "\<forall>p. p < sink_taken i \<longrightarrow> acks (destroy_arp_waiters i) p = 1"
  proof (intro allI impI)
    fix p assume p: "p < sink_taken i"
    from rx_inv_release_waiters [OF inv, of "\<lambda>w. True"]
    have "rx_inv (destroy_arp_waiters i)" by (simp add: destroy_arp_waiters_def)
    moreover have "sink_taken (destroy_arp_waiters i) = sink_taken i"
      by (simp add: destroy_arp_waiters_def release_waiters_def)
    moreover from e have "postponed (destroy_arp_waiters i) = []"
      by (simp add: postponed_def)
    ultimately show "acks (destroy_arp_waiters i) p = 1"
      using p by (simp add: rx_inv_def)
  qed
  from 1 2 3 4 5 6 e show ?thesis
    unfolding i_def by blast
qed

lemma rx_example_eq:
  "sink_taken rx_example = 3 \<and> sink_acked rx_example = [0, 2]
   \<and> own_arp_waiters rx_example =
       [\<lparr>waiting_interface = 7, target_ip = 99, postponed_packet = 1\<rparr>]"
  by (simp add: rx_example_def Interface_def take_packet_def Let_def ack_packet_def)

theorem rx_packets_acked_once_witness:
  "acks rx_example 0 = 1 \<and> acks rx_example 1 = 0 \<and> acks rx_example 2 = 1
   \<and> acks (resume_arp_waiters 99 rx_example) 1 = 1
   \<and> acks (arp_wait_timeout 1 rx_example) 1 = 1
   \<and> acks (destroy_arp_waiters rx_example) 1 = 1"
  using rx_packets_acked_once [of 7 "[Ready_to_submit [Accept, Postpone 99, DropWarn ''bad checksum'']]" 1 2 0]
  unfolding rx_example_def [symmetric]
  by (simp add: rx_example_eq postponed_def)

section \<open>Properties of the link lists\<close>

lemma in_exactly_one_add_other:
  "lid' \<noteq> lid \<Longrightarrow>
   in_exactly_one (add_link protocol lid i) protocol' lid' = in_exactly_one i protocol' lid'"
  by (cases protocol; cases protocol')
    (simp_all add: in_exactly_one_def add_link_def links_def dissolved_links_def)

lemma in_exactly_one_add_new:
  "protocol \<noteq> ICMP \<Longrightarrow> lid \<notin> set (dissolved_tcp_links i) \<Longrightarrow> lid \<notin> set (dissolved_udp_links i) \<Longrightarrow>
   in_exactly_one (add_link protocol lid i) protocol lid"
  by (cases protocol)
    (simp_all add: in_exactly_one_def add_link_def links_def dissolved_links_def)

lemma dissolved_add_link:
  "dissolved_tcp_links (add_link protocol lid i) = dissolved_tcp_links i"
  "dissolved_udp_links (add_link protocol lid i) = dissolved_udp_links i"
  by (cases protocol; simp add: add_link_def)+

lemma mentions_add_link:
  "mentions (add_link protocol lid i) lid' \<Longrightarrow> lid' = lid \<or> mentions i lid'"
  by (cases protocol) (auto simp: mentions_def add_link_def)

lemma in_exactly_one_dissolve_other:
  "lid' \<noteq> lid \<Longrightarrow>
   in_exactly_one (dissolve_on protocol lid i) protocol' lid' = in_exactly_one i protocol' lid'"
  by (cases protocol; cases protocol')
    (simp_all add: in_exactly_one_def dissolve_on_def links_def dissolved_links_def)

lemma in_exactly_one_dissolve_same:
  "in_exactly_one i protocol lid \<Longrightarrow> in_exactly_one (dissolve_on protocol lid i) protocol lid"
  by (cases protocol)
    (auto simp: in_exactly_one_def dissolve_on_def links_def dissolved_links_def)

lemma mentions_dissolve_on:
  "mentions (dissolve_on protocol lid i) lid' \<Longrightarrow> mentions i lid'"
  by (cases protocol) (auto simp: mentions_def dissolve_on_def split: if_splits)

lemma in_exactly_one_remove_other:
  "lid' \<noteq> lid \<Longrightarrow>
   in_exactly_one (remove_dissolved protocol lid i) protocol' lid' = in_exactly_one i protocol' lid'"
  by (cases protocol; cases protocol')
    (simp_all add: in_exactly_one_def remove_dissolved_def links_def dissolved_links_def)

lemma mentions_remove_dissolved:
  "mentions (remove_dissolved protocol lid i) lid' \<Longrightarrow> mentions i lid'"
  by (cases protocol) (auto simp: mentions_def remove_dissolved_def)

lemma on_interface_simps:
  "interfaces (on_interface x f r) y = (if y = x then f (interfaces r x) else interfaces r y)"
  "link_arena (on_interface x f r) = link_arena r"
  "next_link (on_interface x f r) = next_link r"
  by (simp_all add: on_interface_def)


lemma link_inv_router_init: "link_inv (router_init macs)"
  by (simp add: link_inv_def router_init_def mentions_def Interface_def)

lemma link_inv_new_link:
  assumes inv: "link_inv r" and n: "new_link protocol cs ss r = Inr r'"
  shows "link_inv r'"
proof -
  let ?lid = "next_link r"
  let ?l = "\<lparr>link_prot = protocol, client = cs, server = ss, link_state = OPEN\<rparr>"
  from n have p: "protocol \<noteq> ICMP"
    by (auto simp: new_link_def split: if_splits)
  from n p have arena: "link_arena r' = (link_arena r)(?lid \<mapsto> ?l)"
    and nxt: "next_link r' = Suc ?lid"
    and ifs: "\<And>y. interfaces r' y =
       (if y = side_interface ss
        then add_link protocol ?lid
               (if y = side_interface cs then add_link protocol ?lid (interfaces r y)
                else interfaces r y)
        else if y = side_interface cs then add_link protocol ?lid (interfaces r y)
        else interfaces r y)"
    by (auto simp: new_link_def Let_def on_interface_simps)
  from inv have fresh: "\<And>x lid. mentions (interfaces r x) lid \<Longrightarrow> lid < ?lid"
    by (simp add: link_inv_def)
  then have nd: "\<And>x. ?lid \<notin> set (dissolved_tcp_links (interfaces r x))
      \<and> ?lid \<notin> set (dissolved_udp_links (interfaces r x))"
    by (auto simp: mentions_def)
  have other: "in_exactly_one (interfaces r' y) q lid = in_exactly_one (interfaces r y) q lid"
    if "lid \<noteq> ?lid" for y q lid
    using that by (simp add: ifs in_exactly_one_add_other)
  have new: "in_exactly_one (interfaces r' y) protocol ?lid"
    if "y = side_interface cs \<or> y = side_interface ss" for y
    using that p nd by (auto simp: ifs in_exactly_one_add_new dissolved_add_link)
  have m: "lid < Suc ?lid" if "mentions (interfaces r' x) lid" for x lid
  proof -
    from that have "lid = ?lid \<or> mentions (interfaces r x) lid"
      by (auto simp: ifs dest!: mentions_add_link split: if_splits)
    with fresh show ?thesis by (auto simp: less_Suc_eq)
  qed
  have a: "lid < Suc ?lid
      \<and> in_exactly_one (interfaces r' (side_interface (client l))) (link_prot l) lid
      \<and> in_exactly_one (interfaces r' (side_interface (server l))) (link_prot l) lid"
    if "link_arena r' lid = Some l" for lid l
  proof (cases "lid = ?lid")
    case True
    with that arena have "l = ?l" by simp
    with True new show ?thesis by simp
  next
    case False
    with that arena have "link_arena r lid = Some l" by simp
    with inv have "lid < ?lid
      \<and> in_exactly_one (interfaces r (side_interface (client l))) (link_prot l) lid
      \<and> in_exactly_one (interfaces r (side_interface (server l))) (link_prot l) lid"
      by (simp add: link_inv_def)
    with False show ?thesis by (simp add: other)
  qed
  from a m show ?thesis
    unfolding link_inv_def nxt by blast
qed

lemma link_inv_dissolve:
  assumes inv: "link_inv r"
  shows "link_inv (dissolve lid r)"
proof (cases "link_arena r lid")
  case None
  with inv show ?thesis by (simp add: dissolve_def)
next
  case (Some l0)
  let ?r' = "dissolve lid r"
  let ?f = "dissolve_on (link_prot l0) lid"
  from Some have arena: "link_arena ?r' = link_arena r"
    and nxt: "next_link ?r' = next_link r"
    and ifs: "\<And>y. interfaces ?r' y =
       (if y = side_interface (server l0)
        then ?f (if y = side_interface (client l0) then ?f (interfaces r y) else interfaces r y)
        else if y = side_interface (client l0) then ?f (interfaces r y)
        else interfaces r y)"
    by (auto simp: dissolve_def on_interface_simps)
  have other: "in_exactly_one (interfaces ?r' y) q lid' = in_exactly_one (interfaces r y) q lid'"
    if "lid' \<noteq> lid" for y q lid'
    using that by (simp add: ifs in_exactly_one_dissolve_other)
  have same: "in_exactly_one (interfaces ?r' y) (link_prot l0) lid"
    if "in_exactly_one (interfaces r y) (link_prot l0) lid" for y
    using that by (auto simp: ifs intro!: in_exactly_one_dissolve_same)
  have m: "lid' < next_link r" if "mentions (interfaces ?r' x) lid'" for x lid'
  proof -
    from that have "mentions (interfaces r x) lid'"
      by (auto simp: ifs dest!: mentions_dissolve_on split: if_splits)
    with inv show ?thesis by (simp add: link_inv_def)
  qed
  have a: "lid' < next_link r
      \<and> in_exactly_one (interfaces ?r' (side_interface (client l))) (link_prot l) lid'
      \<and> in_exactly_one (interfaces ?r' (side_interface (server l))) (link_prot l) lid'"
    if "link_arena r lid' = Some l" for lid' l
  proof -
    from inv that have b: "lid' < next_link r
      \<and> in_exactly_one (interfaces r (side_interface (client l))) (link_prot l) lid'
      \<and> in_exactly_one (interfaces r (side_interface (server l))) (link_prot l) lid'"
      by (simp add: link_inv_def)
    show ?thesis
    proof (cases "lid' = lid")
      case True
      with that Some have "l = l0" by simp
      with True b same show ?thesis by simp
    next
      case False
      with b show ?thesis by (simp add: other)
    qed
  qed
  from a m show ?thesis
    unfolding link_inv_def nxt arena by blast
qed

lemma link_inv_destroy_link:
  assumes inv: "link_inv r"
  shows "link_inv (destroy_link lid r)"
proof (cases "link_arena r lid")
  case None
  with inv show ?thesis by (simp add: destroy_link_def)
next
  case (Some l0)
  let ?r' = "destroy_link lid r"
  let ?f = "remove_dissolved (link_prot l0) lid"
  from Some have arena: "link_arena ?r' = (link_arena r)(lid := None)"
    and nxt: "next_link ?r' = next_link r"
    and ifs: "\<And>y. interfaces ?r' y =
       (if y = side_interface (server l0)
        then ?f (if y = side_interface (client l0) then ?f (interfaces r y) else interfaces r y)
        else if y = side_interface (client l0) then ?f (interfaces r y)
        else interfaces r y)"
    by (auto simp: destroy_link_def on_interface_simps)
  have other: "in_exactly_one (interfaces ?r' y) q lid' = in_exactly_one (interfaces r y) q lid'"
    if "lid' \<noteq> lid" for y q lid'
    using that by (simp add: ifs in_exactly_one_remove_other)
  have m: "lid' < next_link r" if "mentions (interfaces ?r' x) lid'" for x lid'
  proof -
    from that have "mentions (interfaces r x) lid'"
      by (auto simp: ifs dest!: mentions_remove_dissolved split: if_splits)
    with inv show ?thesis by (simp add: link_inv_def)
  qed
  have a: "lid' < next_link r
      \<and> in_exactly_one (interfaces ?r' (side_interface (client l))) (link_prot l) lid'
      \<and> in_exactly_one (interfaces ?r' (side_interface (server l))) (link_prot l) lid'"
    if "link_arena ?r' lid' = Some l" for lid' l
  proof -
    from that arena have ne: "lid' \<noteq> lid" and al: "link_arena r lid' = Some l"
      by (auto split: if_splits)
    from inv al have "lid' < next_link r
      \<and> in_exactly_one (interfaces r (side_interface (client l))) (link_prot l) lid'
      \<and> in_exactly_one (interfaces r (side_interface (server l))) (link_prot l) lid'"
      by (simp add: link_inv_def)
    with ne show ?thesis by (simp add: other)
  qed
  from a m show ?thesis
    unfolding link_inv_def nxt by blast
qed

lemma link_inv_fold_destroy: "link_inv r \<Longrightarrow> link_inv (fold destroy_link lids r)"
  by (induction lids arbitrary: r) (simp_all add: link_inv_destroy_link)

lemma link_inv_step: "link_inv r \<Longrightarrow> link_inv (link_step op r)"
proof (cases op)
  case (New_link protocol cs ss)
  assume "link_inv r"
  with New_link show ?thesis
    by (cases "new_link protocol cs ss r") (simp_all add: link_inv_new_link)
next
  case (Dissolve lid)
  assume "link_inv r"
  with Dissolve show ?thesis by (simp add: link_inv_dissolve)
next
  case (Ready_to_ack x)
  assume "link_inv r"
  with Ready_to_ack show ?thesis by (simp add: ready_to_ack_def link_inv_fold_destroy)
qed

lemma link_inv_run: "link_inv r \<Longrightarrow> link_inv (link_run ops r)"
  by (induction ops arbitrary: r) (simp_all add: link_inv_step)


lemma link_step_keeps_link:
  assumes "link_inv r" and "link_arena r lid = Some l" and "no_drain [op]"
  shows "link_arena (link_step op r) lid = Some l"
proof (cases op)
  case (New_link protocol cs ss)
  from assms(1,2) have "lid \<noteq> next_link r"
    by (auto simp: link_inv_def)
  with New_link assms(2) show ?thesis
    by (auto simp: new_link_def Let_def on_interface_simps)
next
  case (Dissolve d)
  with assms(2) show ?thesis
    by (auto simp: dissolve_def on_interface_simps split: option.splits)
next
  case (Ready_to_ack x)
  with assms(3) show ?thesis by (simp add: no_drain_def)
qed

lemma link_run_keeps_link:
  "link_inv r \<Longrightarrow> link_arena r lid = Some l \<Longrightarrow> no_drain ops \<Longrightarrow>
   link_arena (link_run ops r) lid = Some l"
proof (induction ops arbitrary: r)
  case Nil
  then show ?case by simp
next
  case (Cons op ops)
  from Cons.prems(3) have 1: "no_drain [op]" and 2: "no_drain ops"
    by (simp_all add: no_drain_def)
  from Cons.prems(1) have "link_inv (link_step op r)" by (rule link_inv_step)
  moreover from Cons.prems(1,2) 1 have "link_arena (link_step op r) lid = Some l"
    by (rule link_step_keeps_link)
  ultimately show ?case using 2 Cons.IH by simp
qed

text \<open>
  C2. After any sequence of operations on the links (a new link, the dissolution of a
  link, the \<open>ready_to_ack\<close> drain of an interface), every link that has not been deleted
  is, on the interface of its client side and on the interface of its server side, in
  exactly one of the two lists for its protocol: the active or the dissolved list, never
  both and never neither. It is deleted by no operation other than a \<open>ready_to_ack\<close>
  drain.
\<close>

theorem link_in_exactly_one_list:
  "link_arena (link_run ops (router_init macs)) lid = Some l \<longrightarrow>
     in_exactly_one
       (interfaces (link_run ops (router_init macs)) (side_interface (client l))) (link_prot l) lid
     \<and> in_exactly_one
       (interfaces (link_run ops (router_init macs)) (side_interface (server l))) (link_prot l) lid
     \<and> (no_drain later \<longrightarrow>
          link_arena (link_run later (link_run ops (router_init macs))) lid = Some l)"
proof
  assume a: "link_arena (link_run ops (router_init macs)) lid = Some l"
  have inv: "link_inv (link_run ops (router_init macs))"
    by (rule link_inv_run [OF link_inv_router_init])
  from inv a have "in_exactly_one
       (interfaces (link_run ops (router_init macs)) (side_interface (client l))) (link_prot l) lid
     \<and> in_exactly_one
       (interfaces (link_run ops (router_init macs)) (side_interface (server l))) (link_prot l) lid"
    by (simp add: link_inv_def)
  moreover have "no_drain later \<longrightarrow>
      link_arena (link_run later (link_run ops (router_init macs))) lid = Some l"
    using link_run_keeps_link [OF inv a] by blast
  ultimately show "in_exactly_one
       (interfaces (link_run ops (router_init macs)) (side_interface (client l))) (link_prot l) lid
     \<and> in_exactly_one
       (interfaces (link_run ops (router_init macs)) (side_interface (server l))) (link_prot l) lid
     \<and> (no_drain later \<longrightarrow>
          link_arena (link_run later (link_run ops (router_init macs))) lid = Some l)"
    by blast
qed

lemma link_example_eq:
  "link_arena link_example 0 =
     Some \<lparr>link_prot = TCP,
           client = \<lparr>side_interface = 1,
             side_id = \<lparr>id_src_ip = 12, id_src_port = 5000, id_dst_ip = 88, id_dst_port = 80\<rparr>\<rparr>,
           server = \<lparr>side_interface = 2,
             side_id = \<lparr>id_src_ip = 88, id_src_port = 80, id_dst_ip = 99, id_dst_port = 49152\<rparr>\<rparr>,
           link_state = OPEN\<rparr>
   \<and> tcp_links (interfaces link_example 1) = []
   \<and> dissolved_tcp_links (interfaces link_example 1) = [0]
   \<and> udp_links (interfaces link_example 1) = [1]
   \<and> tcp_links (interfaces link_example 2) = []
   \<and> dissolved_tcp_links (interfaces link_example 2) = [0]
   \<and> udp_links (interfaces link_example 2) = [1]"
  by (simp add: link_example_def router_init_def Interface_def new_link_def Let_def
      on_interface_def add_link_def dissolve_def dissolve_on_def)

theorem link_in_exactly_one_list_witness:
  "in_exactly_one (interfaces link_example 1) TCP 0
   \<and> in_exactly_one (interfaces link_example 2) TCP 0
   \<and> link_arena (link_run [Dissolve 0, Dissolve 1] link_example) 0 = link_arena link_example 0"
  using link_in_exactly_one_list
    [where ops = "[New_link TCP
          \<lparr>side_interface = 1,
           side_id = \<lparr>id_src_ip = 12, id_src_port = 5000, id_dst_ip = 88, id_dst_port = 80\<rparr>\<rparr>
          \<lparr>side_interface = 2,
           side_id = \<lparr>id_src_ip = 88, id_src_port = 80, id_dst_ip = 99, id_dst_port = 49152\<rparr>\<rparr>,
        Dissolve 0,
        New_link UDP
          \<lparr>side_interface = 1,
           side_id = \<lparr>id_src_ip = 12, id_src_port = 5001, id_dst_ip = 88, id_dst_port = 53\<rparr>\<rparr>
          \<lparr>side_interface = 2,
           side_id = \<lparr>id_src_ip = 88, id_src_port = 53, id_dst_ip = 99, id_dst_port = 49153\<rparr>\<rparr>]"
      and macs = "\<lambda>x. (1, 2)" and lid = 0
      and l = "\<lparr>link_prot = TCP,
           client = \<lparr>side_interface = 1,
             side_id = \<lparr>id_src_ip = 12, id_src_port = 5000, id_dst_ip = 88, id_dst_port = 80\<rparr>\<rparr>,
           server = \<lparr>side_interface = 2,
             side_id = \<lparr>id_src_ip = 88, id_src_port = 80, id_dst_ip = 99, id_dst_port = 49152\<rparr>\<rparr>,
           link_state = OPEN\<rparr>"
      and later = "[Dissolve 0, Dissolve 1]"]
  unfolding link_example_def [symmetric]
  by (simp add: link_example_eq no_drain_def)

end
